theory Spec2Isabelle
  imports
    Main
    "HOL-Library.Word"
    "HOL-Library.Char_ord"
    "HOL-Library.List_Lexorder"
    "HOL-Library.Product_Lexorder"
    "HOL-Library.Multiset"
begin

section \<open>Filter decisions and operators\<close>

text \<open>
  \<^verbatim>\<open>type FilterDecision uint8\<close> with the constants \<^verbatim>\<open>None\<close>, \<^verbatim>\<open>Fail\<close>, \<^verbatim>\<open>Pass\<close>.
  The first constant carries a suffix because \<open>None\<close> is the constructor of \<open>option\<close>.
\<close>

datatype FilterDecision = None_decision | Fail | Pass

text \<open>
  \<^verbatim>\<open>type ExpressionOperator uint16\<close>. The const block of the source lists the first nine
  operators.
\<close>

text \<open>
  Modelled from the spec: the constants \<^verbatim>\<open>MATCH_ALL\<close> and \<^verbatim>\<open>MATCH_NONE\<close>, which the cost table
  of \<^verbatim>\<open>SortByFilterOrder\<close> names and whose declaration is missing from the source files
  ("synthetic sentinel operators used only for cost ordering, never produced by the
  parser").
\<close>

datatype ExpressionOperator =
    EQUAL | NOT_EQUAL | MATCH | MATCH_TAG | NOT_MATCH
  | PREFIX | PREFIX_TAG | HAS_TAG | NOT_HAS_TAG
  | MATCH_ALL | MATCH_NONE

section \<open>The regular expression library\<close>

text \<open>
  Package \<^verbatim>\<open>regexp\<close> belongs to the Go standard library, not to this repository. A compiled
  \<^verbatim>\<open>*regexp.Regexp\<close> is represented by the set of strings it matches, and
  \<^verbatim>\<open>regexp.Compile\<close> is a parameter \<open>compile\<close> of the parser: a function from the pattern
  text to either an error message or a compiled expression.
\<close>

type_synonym Regexp = "string \<Rightarrow> bool"

definition MatchString :: "Regexp \<Rightarrow> string \<Rightarrow> bool" where
  "MatchString re s = re s"

text \<open>\<^verbatim>\<open>strings.HasPrefix(s, prefix)\<close>.\<close>

definition HasPrefix :: "string \<Rightarrow> string \<Rightarrow> bool" where
  "HasPrefix s p = (length p \<le> length s \<and> take (length p) s = p)"

section \<open>The NOT_MATCH expression\<close>

text \<open>
  \<^verbatim>\<open>expressionCommon\<close> is embedded in every variant. Its declaration is missing from the
  source files; the fields are the ones the source reads and writes: \<^verbatim>\<open>key\<close> and
  \<^verbatim>\<open>value\<close> (strings) and \<^verbatim>\<open>matchesEmpty\<close> (the condition of an \<^verbatim>\<open>if\<close>).
\<close>

record expressionCommon =
  key :: string
  "value" :: string
  matchesEmpty :: bool

record expressionNotMatch = expressionCommon +
  valueRe :: Regexp

definition expressionNotMatch_GetOperator :: "expressionNotMatch \<Rightarrow> ExpressionOperator" where
  "expressionNotMatch_GetOperator e = NOT_MATCH"

definition expressionNotMatch_RequiresNonEmptyValue :: "expressionNotMatch \<Rightarrow> bool" where
  "expressionNotMatch_RequiresNonEmptyValue e = False"

definition expressionNotMatch_HasRe :: "expressionNotMatch \<Rightarrow> bool" where
  "expressionNotMatch_HasRe e = True"

definition expressionNotMatch_ValuePasses :: "expressionNotMatch \<Rightarrow> string \<Rightarrow> bool" where
  "expressionNotMatch_ValuePasses e v = (\<not> MatchString (valueRe e) v)"

definition expressionNotMatch_GetDefaultDecision :: "expressionNotMatch \<Rightarrow> FilterDecision" where
  "expressionNotMatch_GetDefaultDecision e = (if matchesEmpty e then Fail else Pass)"

text \<open>A \<^verbatim>\<open>strings.Builder\<close> is the text written to it so far.\<close>

definition expressionNotMatch_StringIntoBuilder :: "expressionNotMatch \<Rightarrow> string \<Rightarrow> string" where
  "expressionNotMatch_StringIntoBuilder e builder = ((builder @ key e) @ ''!=~'') @ value e"

section \<open>Metric definition filters\<close>

text \<open>
  \<^verbatim>\<open>type MetricDefinitionFilter func(name string, tags []string) FilterDecision\<close>. The
  closures the expressions return own mutable caches, so a filter is a function that also
  takes the state it closes over and returns it updated.
\<close>

type_synonym 's MetricDefinitionFilter = "string \<Rightarrow> string list \<Rightarrow> 's \<Rightarrow> FilterDecision \<times> 's"

text \<open>
  The variables the closure of \<^verbatim>\<open>expressionNotMatch.GetMetricDefinitionFilter\<close> captures:
  two \<^verbatim>\<open>sync.Map\<close>s used as sets of strings, and two \<^verbatim>\<open>int32\<close> counters.
\<close>

record cache =
  matchCache :: "string set"
  missCache :: "string set"
  currentMatchCacheSize :: "32 word"
  currentMissCacheSize :: "32 word"

text \<open>The zero values of the four \<^verbatim>\<open>var\<close> declarations.\<close>

definition new_cache :: cache where
  "new_cache = \<lparr>matchCache = {}, missCache = {}, currentMatchCacheSize = 0, currentMissCacheSize = 0\<rparr>"

text \<open>
  The body of the closure of the general path: the loop over \<^verbatim>\<open>tags\<close>. The package
  variable \<^verbatim>\<open>matchCacheSize\<close> (a Go \<^verbatim>\<open>int\<close>) is the parameter \<open>mcs\<close>; \<^verbatim>\<open>int32(matchCacheSize)\<close>
  keeps its low 32 bits, the comparison is signed, and \<^verbatim>\<open>atomic.AddInt32\<close> wraps around.
  \<^verbatim>\<open>tag[len(prefix):]\<close> is in range because \<^verbatim>\<open>HasPrefix\<close> has just held.
\<close>

fun tag_loop :: "int \<Rightarrow> expressionNotMatch \<Rightarrow> string list \<Rightarrow> cache \<Rightarrow> FilterDecision \<times> cache" where
  "tag_loop mcs e [] c = (None_decision, c)"
| "tag_loop mcs e (tag # tags) c =
     (if \<not> HasPrefix tag (key e @ ''='') then tag_loop mcs e tags c
      else if value e = [] then (Pass, c)
      else if drop (length (key e @ ''='')) tag \<in> missCache c then (Pass, c)
      else if drop (length (key e @ ''='')) tag \<in> matchCache c then (Fail, c)
      else if MatchString (valueRe e) (drop (length (key e @ ''='')) tag) then
        (Fail,
         if currentMatchCacheSize c <s word_of_int mcs
         then c\<lparr>matchCache := insert (drop (length (key e @ ''='')) tag) (matchCache c),
                currentMatchCacheSize := currentMatchCacheSize c + 1\<rparr>
         else c)
      else
        (Pass,
         if currentMissCacheSize c <s word_of_int mcs
         then c\<lparr>missCache := insert (drop (length (key e @ ''='')) tag) (missCache c),
                currentMissCacheSize := currentMissCacheSize c + 1\<rparr>
         else c))"

definition expressionNotMatch_GetMetricDefinitionFilter ::
    "int \<Rightarrow> expressionNotMatch \<Rightarrow> cache MetricDefinitionFilter" where
  "expressionNotMatch_GetMetricDefinitionFilter mcs e =
     (if key e = ''name'' then
        (if value e = [] then (\<lambda>_ _ c. (Pass, c))
         else (\<lambda>name _ c. (if MatchString (valueRe e) name then Fail else Pass, c)))
      else (\<lambda>_ tags c. tag_loop mcs e tags c))"

text \<open>\<^verbatim>\<open>MetricDefinitionFilters.Filter\<close>: the loop over the filters, in list order.\<close>

fun Filter :: "'s MetricDefinitionFilter list \<Rightarrow> string \<Rightarrow> string list \<Rightarrow> 's \<Rightarrow> FilterDecision \<times> 's" where
  "Filter [] name tags s = (None_decision, s)"
| "Filter (f # m) name tags s =
     (case f name tags s of
        (decision, s') \<Rightarrow>
          if decision = Fail then (Fail, s')
          else if decision = Pass then (Pass, s')
          else Filter m name tags s')"

section \<open>Expressions\<close>

text \<open>
  The interface \<^verbatim>\<open>Expression\<close> over the nine struct types \<^verbatim>\<open>ParseExpression\<close> constructs, one
  constructor per struct type, with the fields the composite literals of \<^verbatim>\<open>ParseExpression\<close>
  set. \<^verbatim>\<open>expressionMatchTag\<close> is built with a \<^verbatim>\<open>valueRe\<close> in one switch and without one
  (a nil pointer) in the other, so its pattern is optional.
\<close>

datatype Expression =
    ExpressionEqual expressionCommon
  | ExpressionNotEqual expressionCommon
  | ExpressionMatch expressionCommon Regexp
  | ExpressionNotMatch expressionNotMatch
  | ExpressionMatchTag expressionCommon "Regexp option"
  | ExpressionPrefix expressionCommon
  | ExpressionPrefixTag expressionCommon
  | ExpressionHasTag expressionCommon
  | ExpressionNotHasTag expressionCommon

text \<open>
  \<^verbatim>\<open>GetOperator\<close> through the interface. The method of \<^verbatim>\<open>expressionNotMatch\<close> is the one of
  the source.
\<close>

text \<open>
  Modelled from the spec: the methods \<^verbatim>\<open>GetOperator\<close> of the other eight struct types, whose
  files are missing ("polymorphic over the variant set {Equal, NotEqual, Match, NotMatch,
  MatchTag, Prefix, PrefixTag, HasTag, NotHasTag}"). Each returns the operator under which
  the switches of \<^verbatim>\<open>ParseExpression\<close> construct its struct type.
\<close>

fun GetOperator :: "Expression \<Rightarrow> ExpressionOperator" where
  "GetOperator (ExpressionEqual c) = EQUAL"
| "GetOperator (ExpressionNotEqual c) = NOT_EQUAL"
| "GetOperator (ExpressionMatch c re) = MATCH"
| "GetOperator (ExpressionNotMatch e) = expressionNotMatch_GetOperator e"
| "GetOperator (ExpressionMatchTag c re) = MATCH_TAG"
| "GetOperator (ExpressionPrefix c) = PREFIX"
| "GetOperator (ExpressionPrefixTag c) = PREFIX_TAG"
| "GetOperator (ExpressionHasTag c) = HAS_TAG"
| "GetOperator (ExpressionNotHasTag c) = NOT_HAS_TAG"

text \<open>
  Modelled from the spec: \<^verbatim>\<open>GetKey\<close> and \<^verbatim>\<open>GetValue\<close>, methods of \<^verbatim>\<open>expressionCommon\<close> whose
  file is missing ("accessors"): they read the embedded fields \<^verbatim>\<open>key\<close> and \<^verbatim>\<open>value\<close>.
\<close>

fun GetKey :: "Expression \<Rightarrow> string" where
  "GetKey (ExpressionEqual c) = key c"
| "GetKey (ExpressionNotEqual c) = key c"
| "GetKey (ExpressionMatch c re) = key c"
| "GetKey (ExpressionNotMatch e) = key e"
| "GetKey (ExpressionMatchTag c re) = key c"
| "GetKey (ExpressionPrefix c) = key c"
| "GetKey (ExpressionPrefixTag c) = key c"
| "GetKey (ExpressionHasTag c) = key c"
| "GetKey (ExpressionNotHasTag c) = key c"

fun GetValue :: "Expression \<Rightarrow> string" where
  "GetValue (ExpressionEqual c) = value c"
| "GetValue (ExpressionNotEqual c) = value c"
| "GetValue (ExpressionMatch c re) = value c"
| "GetValue (ExpressionNotMatch e) = value e"
| "GetValue (ExpressionMatchTag c re) = value c"
| "GetValue (ExpressionPrefix c) = value c"
| "GetValue (ExpressionPrefixTag c) = value c"
| "GetValue (ExpressionHasTag c) = value c"
| "GetValue (ExpressionNotHasTag c) = value c"

text \<open>\<^verbatim>\<open>ExpressionOperator.StringIntoBuilder\<close>: the token of each operator.\<close>

fun ExpressionOperator_StringIntoBuilder :: "ExpressionOperator \<Rightarrow> string \<Rightarrow> string" where
  "ExpressionOperator_StringIntoBuilder EQUAL builder = builder @ ''=''"
| "ExpressionOperator_StringIntoBuilder NOT_EQUAL builder = builder @ ''!=''"
| "ExpressionOperator_StringIntoBuilder MATCH builder = builder @ ''=~''"
| "ExpressionOperator_StringIntoBuilder MATCH_TAG builder = builder @ ''=~''"
| "ExpressionOperator_StringIntoBuilder NOT_MATCH builder = builder @ ''!=~''"
| "ExpressionOperator_StringIntoBuilder PREFIX builder = builder @ ''^=''"
| "ExpressionOperator_StringIntoBuilder PREFIX_TAG builder = builder @ ''^=''"
| "ExpressionOperator_StringIntoBuilder HAS_TAG builder = builder @ ''!=''"
| "ExpressionOperator_StringIntoBuilder NOT_HAS_TAG builder = builder @ ''=''"
| "ExpressionOperator_StringIntoBuilder MATCH_ALL builder = builder"
| "ExpressionOperator_StringIntoBuilder MATCH_NONE builder = builder"

text \<open>
  \<^verbatim>\<open>StringIntoBuilder\<close> through the interface. The method of \<^verbatim>\<open>expressionNotMatch\<close> is the
  one of the source.
\<close>

text \<open>
  Modelled from the spec: the methods \<^verbatim>\<open>StringIntoBuilder\<close> of the other eight struct
  types, whose files are missing ("appends the canonical \<^verbatim>\<open>key<op-token>value\<close> form"),
  with the token \<^verbatim>\<open>ExpressionOperator.StringIntoBuilder\<close> writes.
\<close>

fun StringIntoBuilder :: "Expression \<Rightarrow> string \<Rightarrow> string" where
  "StringIntoBuilder (ExpressionNotMatch e) builder = expressionNotMatch_StringIntoBuilder e builder"
| "StringIntoBuilder x builder =
     ExpressionOperator_StringIntoBuilder (GetOperator x) (builder @ GetKey x) @ GetValue x"

text \<open>\<^verbatim>\<open>ExpressionsAreEqual\<close>.\<close>

definition ExpressionsAreEqual :: "Expression \<Rightarrow> Expression \<Rightarrow> bool" where
  "ExpressionsAreEqual expr1 expr2 =
     (GetKey expr1 = GetKey expr2 \<and> GetOperator expr1 = GetOperator expr2 \<and>
      GetValue expr1 = GetValue expr2)"

section \<open>The parser\<close>

text \<open>
  A Go call either panics or returns. Indexing a string and slicing it panic out of
  range; the parser's results keep that outcome apart from a returned error.
\<close>

datatype 'a outcome = Panics | Returns 'a

definition byte_at :: "string \<Rightarrow> nat \<Rightarrow> char outcome" where
  "byte_at s i = (if i < length s then Returns (s ! i) else Panics)"

definition slice_to :: "string \<Rightarrow> nat \<Rightarrow> string outcome" where
  "slice_to s i = (if i \<le> length s then Returns (take i s) else Panics)"

definition slice_from :: "string \<Rightarrow> nat \<Rightarrow> string outcome" where
  "slice_from s i = (if i \<le> length s then Returns (drop i s) else Panics)"

text \<open>
  The errors \<^verbatim>\<open>ParseExpression\<close> returns: the ones it builds with \<^verbatim>\<open>fmt.Errorf\<close>, by their
  message, and the one of \<^verbatim>\<open>regexp.Compile\<close>, passed on as it is.
\<close>

datatype error = Errorf string | RegexpError string

definition invalidExpressionError :: "string \<Rightarrow> string" where
  "invalidExpressionError expr = ''Invalid expression: '' @ expr"

definition keyValidationError :: "string \<Rightarrow> string \<Rightarrow> string \<Rightarrow> string" where
  "keyValidationError k expr err =
     ''Error when validating key '' @ [CHR 0x22] @ k @ [CHR 0x22] @ '' of expression '' @
     [CHR 0x22] @ expr @ [CHR 0x22] @ '': '' @ err"

definition invalidOperatorError :: "string \<Rightarrow> string" where
  "invalidOperatorError expr = ''ParseExpression: Invalid operator in expression '' @ expr"

text \<open>
  The loop labelled \<^verbatim>\<open>FIND_OPERATOR\<close>: it leaves with the position and the flags
  \<^verbatim>\<open>prefix\<close> and \<^verbatim>\<open>not\<close>, or makes the function return the error at a semicolon.
\<close>

datatype find_operator = Semicolon_in_key | Break nat bool bool

function FIND_OPERATOR :: "string \<Rightarrow> nat \<Rightarrow> find_operator outcome" where
  "FIND_OPERATOR expr pos =
     (if pos < length expr then
        (case byte_at expr pos of
           Panics \<Rightarrow> Panics
         | Returns b \<Rightarrow>
             if b = CHR ''='' then Returns (Break pos False False)
             else if b = CHR ''!'' then Returns (Break pos False True)
             else if b = CHR ''^'' then Returns (Break pos True False)
             else if b = CHR '';'' then Returns Semicolon_in_key
             else FIND_OPERATOR expr (pos + 1))
      else Returns (Break pos False False))"
  by pat_completeness auto
termination
  by (relation "measure (\<lambda>(expr, pos). length expr - pos)") auto

text \<open>The loop over the value: whether it meets a semicolon (byte 59).\<close>

function semicolon_in_value :: "string \<Rightarrow> nat \<Rightarrow> bool outcome" where
  "semicolon_in_value expr pos =
     (if pos < length expr then
        (case byte_at expr pos of
           Panics \<Rightarrow> Panics
         | Returns b \<Rightarrow>
             if b = CHR 59 then Returns True
             else semicolon_in_value expr (pos + 1))
      else Returns False)"
  by pat_completeness auto
termination
  by (relation "measure (\<lambda>(expr, pos). length expr - pos)") auto

declare FIND_OPERATOR.simps [simp del] semicolon_in_value.simps [simp del]

text \<open>The \<^verbatim>\<open>if\<close> cascade that sets \<^verbatim>\<open>operator\<close> from the flags and the value.\<close>

definition derive_operator :: "bool \<Rightarrow> bool \<Rightarrow> bool \<Rightarrow> string \<Rightarrow> ExpressionOperator" where
  "derive_operator prefix regex not' v =
     (if not' then
        (if length v = 0 then HAS_TAG
         else if regex then NOT_MATCH
         else NOT_EQUAL)
      else
        (if prefix then
           (if length v = 0 then HAS_TAG else PREFIX)
         else if length v = 0 then NOT_HAS_TAG
         else if regex then MATCH
         else EQUAL))"

text \<open>
  The last part of \<^verbatim>\<open>ParseExpression\<close>: the anchoring of the value, the call of
  \<^verbatim>\<open>regexp.Compile\<close> and the two switches over \<^verbatim>\<open>operator\<close>, with the final \<^verbatim>\<open>return\<close> for an
  operator no case takes.
\<close>

definition construct ::
    "(string \<Rightarrow> string + Regexp) \<Rightarrow> string \<Rightarrow> expressionCommon \<Rightarrow> ExpressionOperator \<Rightarrow>
     (error + Expression) outcome" where
  "construct compile expr resCommon operator =
     (if operator = MATCH \<or> operator = NOT_MATCH \<or> operator = MATCH_TAG then
        (case (if 0 < length (value resCommon) then
                 (case byte_at (value resCommon) 0 of
                    Panics \<Rightarrow> Panics
                  | Returns b \<Rightarrow>
                      if b \<noteq> CHR ''^''
                      then Returns (resCommon\<lparr>value := (''^(?:'' @ value resCommon) @ '')''\<rparr>)
                      else Returns resCommon)
               else Returns resCommon) of
           Panics \<Rightarrow> Panics
         | Returns resCommon' \<Rightarrow>
             (case compile (value resCommon') of
                Inl err \<Rightarrow> Returns (Inl (RegexpError err))
              | Inr re \<Rightarrow>
                  (case operator of
                     MATCH \<Rightarrow> Returns (Inr (ExpressionMatch resCommon' re))
                   | NOT_MATCH \<Rightarrow>
                       Returns (Inr (ExpressionNotMatch
                         \<lparr>key = key resCommon', value = value resCommon',
                          matchesEmpty = matchesEmpty resCommon', valueRe = re\<rparr>))
                   | MATCH_TAG \<Rightarrow> Returns (Inr (ExpressionMatchTag resCommon' (Some re)))
                   | _ \<Rightarrow> Returns (Inl (Errorf (invalidOperatorError expr))))))
      else
        (case operator of
           EQUAL \<Rightarrow> Returns (Inr (ExpressionEqual resCommon))
         | NOT_EQUAL \<Rightarrow> Returns (Inr (ExpressionNotEqual resCommon))
         | PREFIX \<Rightarrow> Returns (Inr (ExpressionPrefix resCommon))
         | MATCH_TAG \<Rightarrow> Returns (Inr (ExpressionMatchTag resCommon None))
         | HAS_TAG \<Rightarrow> Returns (Inr (ExpressionHasTag resCommon))
         | NOT_HAS_TAG \<Rightarrow> Returns (Inr (ExpressionNotHasTag resCommon))
         | PREFIX_TAG \<Rightarrow> Returns (Inr (ExpressionPrefixTag resCommon))
         | _ \<Rightarrow> Returns (Inl (Errorf (invalidOperatorError expr)))))"

text \<open>
  From the loop over the value to the block of the special key \<^verbatim>\<open>__tag\<close>. \<^verbatim>\<open>resCommon\<close> was
  created as \<^verbatim>\<open>expressionCommon{}\<close> and only its \<^verbatim>\<open>key\<close> and \<^verbatim>\<open>value\<close> are assigned, so
  \<^verbatim>\<open>matchesEmpty\<close> keeps the zero value \<^verbatim>\<open>false\<close>.
\<close>

definition parse_value ::
    "(string \<Rightarrow> string + Regexp) \<Rightarrow> string \<Rightarrow> string \<Rightarrow> nat \<Rightarrow> bool \<Rightarrow> bool \<Rightarrow> bool \<Rightarrow>
     (error + Expression) outcome" where
  "parse_value compile expr k valuePos prefix regex not' =
     (case semicolon_in_value expr valuePos of
        Panics \<Rightarrow> Panics
      | Returns True \<Rightarrow> Returns (Inl (Errorf (invalidExpressionError expr)))
      | Returns False \<Rightarrow>
          (case slice_from expr valuePos of
             Panics \<Rightarrow> Panics
           | Returns v \<Rightarrow>
               (if k = ''__tag'' then
                  (if not' \<or> length v = 0 then Returns (Inl (Errorf (invalidExpressionError expr)))
                   else construct compile expr \<lparr>key = k, value = v, matchesEmpty = False\<rparr>
                     (if derive_operator prefix regex not' v = PREFIX then PREFIX_TAG
                      else if derive_operator prefix regex not' v = MATCH then MATCH_TAG
                      else derive_operator prefix regex not' v))
                else construct compile expr \<lparr>key = k, value = v, matchesEmpty = False\<rparr>
                  (derive_operator prefix regex not' v))))"

text \<open>From the shift over the flag character to the test for \<^verbatim>\<open>~\<close>.\<close>

definition parse_operator ::
    "(string \<Rightarrow> string + Regexp) \<Rightarrow> string \<Rightarrow> string \<Rightarrow> nat \<Rightarrow> bool \<Rightarrow> bool \<Rightarrow>
     (error + Expression) outcome" where
  "parse_operator compile expr k pos prefix not' =
     (if length expr \<le> (if not' \<or> prefix then pos + 1 else pos)
      then Returns (Inl (Errorf (invalidExpressionError expr)))
      else
        (case byte_at expr (if not' \<or> prefix then pos + 1 else pos) of
           Panics \<Rightarrow> Panics
         | Returns b \<Rightarrow>
             if b \<noteq> CHR ''=''
             then Returns (Inl (Errorf (invalidExpressionError expr)))
             else if (if not' \<or> prefix then pos + 1 else pos) + 1 < length expr then
               (case byte_at expr ((if not' \<or> prefix then pos + 1 else pos) + 1) of
                  Panics \<Rightarrow> Panics
                | Returns b' \<Rightarrow>
                    if b' = CHR ''~'' then
                      (if prefix then Returns (Inl (Errorf (invalidExpressionError expr)))
                       else parse_value compile expr k
                              ((if not' \<or> prefix then pos + 1 else pos) + 2) prefix True not')
                    else parse_value compile expr k
                           ((if not' \<or> prefix then pos + 1 else pos) + 1) prefix False not')
             else parse_value compile expr k
                    ((if not' \<or> prefix then pos + 1 else pos) + 1) prefix False not'))"

text \<open>
  \<^verbatim>\<open>ParseExpression\<close>. The collaborator \<^verbatim>\<open>validateQueryExpressionTagKey\<close>, whose file is
  missing, is a parameter: it returns the message of its error, or nothing for \<^verbatim>\<open>nil\<close>.
  \<^verbatim>\<open>regexp.Compile\<close> is the parameter \<open>compile\<close>.
\<close>

definition ParseExpression ::
    "(string \<Rightarrow> string option) \<Rightarrow> (string \<Rightarrow> string + Regexp) \<Rightarrow> string \<Rightarrow>
     (error + Expression) outcome" where
  "ParseExpression validateQueryExpressionTagKey compile expr =
     (case FIND_OPERATOR expr 0 of
        Panics \<Rightarrow> Panics
      | Returns Semicolon_in_key \<Rightarrow> Returns (Inl (Errorf (invalidExpressionError expr)))
      | Returns (Break pos prefix not') \<Rightarrow>
          if pos = 0 then Returns (Inl (Errorf (invalidExpressionError expr)))
          else
            (case slice_to expr pos of
               Panics \<Rightarrow> Panics
             | Returns k \<Rightarrow>
                 (case validateQueryExpressionTagKey k of
                    Some err \<Rightarrow> Returns (Inl (Errorf (keyValidationError k expr err)))
                  | None \<Rightarrow> parse_operator compile expr k pos prefix not')))"

text \<open>
  \<^verbatim>\<open>ParseExpressions\<close>: the expressions of the texts in order, or the error of the first
  text that has one.
\<close>

fun ParseExpressions ::
    "(string \<Rightarrow> string option) \<Rightarrow> (string \<Rightarrow> string + Regexp) \<Rightarrow> string list \<Rightarrow>
     (error + Expression list) outcome" where
  "ParseExpressions validateQueryExpressionTagKey compile [] = Returns (Inr [])"
| "ParseExpressions validateQueryExpressionTagKey compile (expr # expressions) =
     (case ParseExpression validateQueryExpressionTagKey compile expr of
        Panics \<Rightarrow> Panics
      | Returns (Inl err) \<Rightarrow> Returns (Inl err)
      | Returns (Inr expression) \<Rightarrow>
          (case ParseExpressions validateQueryExpressionTagKey compile expressions of
             Panics \<Rightarrow> Panics
           | Returns (Inl err) \<Rightarrow> Returns (Inl err)
           | Returns (Inr res) \<Rightarrow> Returns (Inr (expression # res))))"

section \<open>The collection of expressions\<close>

text \<open>
  The map \<^verbatim>\<open>costByOperator\<close> of \<^verbatim>\<open>SortByFilterOrder\<close>. It has an entry for each of the
  eleven operators, so no lookup falls back to the zero value.
\<close>

fun costByOperator :: "ExpressionOperator \<Rightarrow> int" where
  "costByOperator MATCH_NONE = 0"
| "costByOperator EQUAL = 1"
| "costByOperator HAS_TAG = 2"
| "costByOperator PREFIX = 3"
| "costByOperator PREFIX_TAG = 4"
| "costByOperator NOT_EQUAL = 5"
| "costByOperator NOT_HAS_TAG = 6"
| "costByOperator MATCH = 7"
| "costByOperator MATCH_TAG = 8"
| "costByOperator NOT_MATCH = 9"
| "costByOperator MATCH_ALL = 10"

text \<open>
  The function literal handed to \<^verbatim>\<open>sort.Slice\<close>, on the two elements \<^verbatim>\<open>e[i]\<close> and \<^verbatim>\<open>e[j]\<close>.
  Go compares strings byte by byte, which is the lexicographic order of \<open>string\<close> here.
\<close>

definition filter_order_less :: "Expression \<Rightarrow> Expression \<Rightarrow> bool" where
  "filter_order_less ei ej =
     (if GetOperator ei = GetOperator ej then
        (if GetKey ei = GetKey ej then GetValue ei < GetValue ej
         else GetKey ei < GetKey ej)
      else costByOperator (GetOperator ei) < costByOperator (GetOperator ej))"




text \<open>
  The order the comment of \<^verbatim>\<open>SortByFilterOrder\<close> describes: first the cost of the operator,
  then the key, then the value.
\<close>

definition filter_order_key :: "Expression \<Rightarrow> int \<times> string \<times> string" where
  "filter_order_key x = (costByOperator (GetOperator x), GetKey x, GetValue x)"



section \<open>Specifications\<close>

subsection \<open>The decision of a NOT_MATCH filter, without its caches\<close>

text \<open>
  The decision on \<open>(name, tags)\<close> as a function of the expression alone: on the key
  \<^verbatim>\<open>name\<close> the test of the name, otherwise the test of the first tag that begins with the
  key and \<^verbatim>\<open>=\<close>, and no decision when there is no such tag.
\<close>

definition not_match_decision :: "expressionNotMatch \<Rightarrow> string \<Rightarrow> string list \<Rightarrow> FilterDecision" where
  "not_match_decision e name tags =
     (if key e = ''name'' then
        (if value e = [] then Pass
         else if MatchString (valueRe e) name then Fail else Pass)
      else
        (case find (\<lambda>tag. HasPrefix tag (key e @ ''='')) tags of
           None \<Rightarrow> None_decision
         | Some tag \<Rightarrow>
             if value e = [] then Pass
             else if MatchString (valueRe e) (drop (length (key e) + 1) tag) then Fail
             else Pass))"

text \<open>The state a filter is in after a sequence of earlier calls.\<close>

fun run_calls :: "'s MetricDefinitionFilter \<Rightarrow> (string \<times> string list) list \<Rightarrow> 's \<Rightarrow> 's" where
  "run_calls f [] s = s"
| "run_calls f (call # calls) s = run_calls f calls (snd (f (fst call) (snd call) s))"

text \<open>
  The caches hold only what the pattern has decided: every value in the miss cache is
  one the pattern does not match, every value in the match cache one it matches.
\<close>

definition cache_consistent :: "expressionNotMatch \<Rightarrow> cache \<Rightarrow> bool" where
  "cache_consistent e c =
     ((\<forall>v \<in> missCache c. \<not> MatchString (valueRe e) v) \<and>
      (\<forall>v \<in> matchCache c. MatchString (valueRe e) v))"

subsection \<open>A run of filters that all return no decision\<close>

text \<open>
  The state after invoking the filters of a list in order, when each of them returns
  \<^verbatim>\<open>None\<close>; nothing when one of them decides.
\<close>

fun run_undecided :: "'s MetricDefinitionFilter list \<Rightarrow> string \<Rightarrow> string list \<Rightarrow> 's \<Rightarrow> 's option" where
  "run_undecided [] name tags s = Some s"
| "run_undecided (f # m) name tags s =
     (if fst (f name tags s) = None_decision then run_undecided m name tags (snd (f name tags s))
      else None)"

subsection \<open>The grammar of an expression, read off its text\<close>

text \<open>
  The key is the text before the first of \<^verbatim>\<open>=\<close>, \<^verbatim>\<open>!\<close> and \<^verbatim>\<open>^\<close>. A \<^verbatim>\<open>!\<close> there is the flag
  "not", a \<^verbatim>\<open>^\<close> the flag "prefix"; after the flag character, if any, comes the \<^verbatim>\<open>=\<close>; a
  \<^verbatim>\<open>~\<close> right after it is the flag "regex"; the rest is the value.
\<close>

definition key_byte :: "char \<Rightarrow> bool" where
  "key_byte b = (b \<noteq> CHR ''='' \<and> b \<noteq> CHR ''!'' \<and> b \<noteq> CHR ''^'')"

definition key_text :: "string \<Rightarrow> string" where
  "key_text expr = takeWhile key_byte expr"

definition after_key :: "string \<Rightarrow> string" where
  "after_key expr = dropWhile key_byte expr"

definition not_flag :: "string \<Rightarrow> bool" where
  "not_flag expr = (take 1 (after_key expr) = ''!'')"

definition prefix_flag :: "string \<Rightarrow> bool" where
  "prefix_flag expr = (take 1 (after_key expr) = ''^'')"

definition after_flag :: "string \<Rightarrow> string" where
  "after_flag expr =
     (if not_flag expr \<or> prefix_flag expr then drop 1 (after_key expr) else after_key expr)"

definition has_equals :: "string \<Rightarrow> bool" where
  "has_equals expr = (take 1 (after_flag expr) = ''='')"

definition regex_flag :: "string \<Rightarrow> bool" where
  "regex_flag expr = (take 1 (drop 1 (after_flag expr)) = ''~'')"

definition value_text :: "string \<Rightarrow> string" where
  "value_text expr = (if regex_flag expr then drop 2 (after_flag expr) else drop 1 (after_flag expr))"

text \<open>The table of operators, row by row, and the remapping for the key \<^verbatim>\<open>__tag\<close>.\<close>

definition operator_table :: "bool \<Rightarrow> bool \<Rightarrow> bool \<Rightarrow> bool \<Rightarrow> ExpressionOperator" where
  "operator_table not' prefix regex value_empty =
     (if not' \<and> value_empty then HAS_TAG
      else if not' \<and> regex \<and> \<not> value_empty then NOT_MATCH
      else if not' \<and> \<not> regex \<and> \<not> value_empty then NOT_EQUAL
      else if prefix \<and> value_empty then HAS_TAG
      else if prefix \<and> \<not> value_empty then PREFIX
      else if value_empty then NOT_HAS_TAG
      else if regex then MATCH
      else EQUAL)"

definition tag_remap :: "string \<Rightarrow> ExpressionOperator \<Rightarrow> ExpressionOperator" where
  "tag_remap k operator =
     (if k = ''__tag'' then
        (if operator = PREFIX then PREFIX_TAG
         else if operator = MATCH then MATCH_TAG
         else operator)
      else operator)"

text \<open>The pattern handed to the compiler: anchored unless it is empty or begins with \<^verbatim>\<open>^\<close>.\<close>

definition anchored :: "string \<Rightarrow> string" where
  "anchored v = (if v = [] \<or> take 1 v = ''^'' then v else ''^(?:'' @ v @ '')'')"

text \<open>
  The malformed inputs: a semicolon in the key or in the value, an empty key, a key the
  validation rejects, no \<^verbatim>\<open>=\<close> after the key or its flag character, \<^verbatim>\<open>^\<close> together with
  \<^verbatim>\<open>=~\<close>, the key \<^verbatim>\<open>__tag\<close> with \<^verbatim>\<open>!\<close> or with an empty value, and a regular expression
  that does not compile.
\<close>

definition structure_before_key_check :: "string \<Rightarrow> bool" where
  "structure_before_key_check expr = (CHR '';'' \<in> set (key_text expr) \<or> key_text expr = [])"

definition structure_after_key_check :: "string \<Rightarrow> bool" where
  "structure_after_key_check expr =
     ((has_equals expr = False) \<or> (prefix_flag expr \<and> regex_flag expr) \<or>
      CHR '';'' \<in> set (value_text expr) \<or>
      (key_text expr = ''__tag'' \<and> (not_flag expr \<or> value_text expr = [])))"

definition regex_rejected :: "(string \<Rightarrow> string + Regexp) \<Rightarrow> string \<Rightarrow> bool" where
  "regex_rejected compile expr =
     (regex_flag expr \<and> value_text expr \<noteq> [] \<and> isl (compile (anchored (value_text expr))))"

definition malformed ::
    "(string \<Rightarrow> string option) \<Rightarrow> (string \<Rightarrow> string + Regexp) \<Rightarrow> string \<Rightarrow> bool" where
  "malformed validateQueryExpressionTagKey compile expr =
     (structure_before_key_check expr \<or>
      validateQueryExpressionTagKey (key_text expr) \<noteq> None \<or>
      structure_after_key_check expr \<or>
      regex_rejected compile expr)"

subsection \<open>Instances of the collaborators, for evaluation at concrete inputs\<close>

text \<open>A key validation that rejects a key with a space in it.\<close>

definition sample_validateKey :: "string \<Rightarrow> string option" where
  "sample_validateKey k = (if CHR '' '' \<in> set k then Some ''space in key'' else None)"

text \<open>
  What \<^verbatim>\<open>regexp.Compile\<close> and \<^verbatim>\<open>MatchString\<close> do on four patterns: \<^verbatim>\<open>^(?:foo)\<close> matches the
  strings that begin with \<^verbatim>\<open>foo\<close>, \<^verbatim>\<open>^web.*\<close> those that begin with \<^verbatim>\<open>web\<close>, \<^verbatim>\<open>^(?:.*)\<close> every
  string, and \<^verbatim>\<open>^(?:()\<close> does not compile. Other patterns are outside this table.
\<close>

definition sample_Compile :: "string \<Rightarrow> string + Regexp" where
  "sample_Compile p =
     (if p = ''^(?:foo)'' then Inr (\<lambda>s. take 3 s = ''foo'')
      else if p = ''^web.*'' then Inr (\<lambda>s. take 3 s = ''web'')
      else if p = ''^(?:.*)'' then Inr (\<lambda>s. True)
      else if p = ''^(?:()'' then Inl ''error parsing regexp: missing closing )''
      else Inl ''pattern outside the table'')"

section \<open>The filter of a NOT_MATCH expression\<close>

subsection \<open>The loop over the tags\<close>

lemma tag_loop_skip:
  "\<forall>p \<in> set pre. \<not> HasPrefix p (key e @ ''='') \<Longrightarrow>
   tag_loop mcs e (pre @ rest) c = tag_loop mcs e rest c"
  by (induction pre) simp_all

lemma tag_loop_hit_decides:
  "HasPrefix t (key e @ ''='') \<Longrightarrow> tag_loop mcs e (t # post) c = tag_loop mcs e [t] c"
  by simp

lemma tag_loop_hit_conclusive:
  "HasPrefix t (key e @ ''='') \<Longrightarrow> fst (tag_loop mcs e (t # post) c) \<noteq> None_decision"
  by simp

lemma tag_loop_hit_fst:
  assumes "cache_consistent e c" "HasPrefix t (key e @ ''='')"
  shows "fst (tag_loop mcs e (t # post) c) =
          (if value e = [] then Pass
           else if MatchString (valueRe e) (drop (length (key e) + 1) t) then Fail
           else Pass)"
proof -
  let ?v = "drop (length (key e @ ''='')) t"
  have v: "?v = drop (length (key e) + 1) t" by simp
  from assms(1) have miss: "?v \<in> missCache c \<Longrightarrow> \<not> MatchString (valueRe e) ?v"
    and hit: "?v \<in> matchCache c \<Longrightarrow> MatchString (valueRe e) ?v"
    by (simp_all add: cache_consistent_def)
  show ?thesis
  proof (cases "value e = []")
    case True
    with assms(2) show ?thesis by simp
  next
    case False
    show ?thesis
    proof (cases "MatchString (valueRe e) ?v")
      case True
      with miss have "?v \<notin> missCache c" by blast
      with True False assms(2) show ?thesis unfolding v [symmetric] by simp
    next
      case nm: False
      with hit have "?v \<notin> matchCache c" by blast
      with nm False assms(2) show ?thesis unfolding v [symmetric] by simp
    qed
  qed
qed

lemma tag_loop_decision:
  "cache_consistent e c \<Longrightarrow>
   fst (tag_loop mcs e tags c) =
     (case find (\<lambda>tag. HasPrefix tag (key e @ ''='')) tags of
        None \<Rightarrow> None_decision
      | Some tag \<Rightarrow>
          if value e = [] then Pass
          else if MatchString (valueRe e) (drop (length (key e) + 1) tag) then Fail
          else Pass)"
proof (induction tags)
  case Nil
  show ?case by simp
next
  case (Cons t tags)
  show ?case
  proof (cases "HasPrefix t (key e @ ''='')")
    case True
    from tag_loop_hit_fst [OF Cons.prems True] True show ?thesis by simp
  next
    case False
    with Cons show ?thesis by simp
  qed
qed

subsection \<open>The caches stay consistent\<close>

lemma consistent_store_match:
  "cache_consistent e c \<Longrightarrow> MatchString (valueRe e) v \<Longrightarrow>
   cache_consistent e (c\<lparr>matchCache := insert v (matchCache c), currentMatchCacheSize := n\<rparr>)"
  by (simp add: cache_consistent_def)

lemma consistent_store_miss:
  "cache_consistent e c \<Longrightarrow> \<not> MatchString (valueRe e) v \<Longrightarrow>
   cache_consistent e (c\<lparr>missCache := insert v (missCache c), currentMissCacheSize := n\<rparr>)"
  by (simp add: cache_consistent_def)

lemma tag_loop_hit_consistent:
  assumes "cache_consistent e c" "HasPrefix t (key e @ ''='')"
  shows "cache_consistent e (snd (tag_loop mcs e (t # post) c))"
proof -
  let ?v = "drop (length (key e @ ''='')) t"
  show ?thesis
  proof (cases "value e = [] \<or> ?v \<in> missCache c \<or> ?v \<in> matchCache c")
    case True
    with assms show ?thesis by auto
  next
    case False
    then have f: "value e \<noteq> []" "?v \<notin> missCache c" "?v \<notin> matchCache c" by simp_all
    show ?thesis
    proof (cases "MatchString (valueRe e) ?v")
      case True
      with f assms(2) have "snd (tag_loop mcs e (t # post) c) =
         (if currentMatchCacheSize c <s word_of_int mcs
          then c\<lparr>matchCache := insert ?v (matchCache c),
                 currentMatchCacheSize := currentMatchCacheSize c + 1\<rparr>
          else c)" by simp
      with consistent_store_match [OF assms(1) True] assms(1) show ?thesis by simp
    next
      case nm: False
      with f assms(2) have "snd (tag_loop mcs e (t # post) c) =
         (if currentMissCacheSize c <s word_of_int mcs
          then c\<lparr>missCache := insert ?v (missCache c),
                 currentMissCacheSize := currentMissCacheSize c + 1\<rparr>
          else c)" by simp
      with consistent_store_miss [OF assms(1) nm] assms(1) show ?thesis by simp
    qed
  qed
qed

lemma tag_loop_consistent:
  "cache_consistent e c \<Longrightarrow> cache_consistent e (snd (tag_loop mcs e tags c))"
proof (induction tags)
  case Nil
  then show ?case by simp
next
  case (Cons t tags)
  show ?case
  proof (cases "HasPrefix t (key e @ ''='')")
    case True
    from tag_loop_hit_consistent [OF Cons.prems True] show ?thesis .
  next
    case False
    with Cons show ?thesis by simp
  qed
qed

lemma filter_consistent:
  "cache_consistent e c \<Longrightarrow>
   cache_consistent e (snd (expressionNotMatch_GetMetricDefinitionFilter mcs e name tags c))"
  by (simp add: expressionNotMatch_GetMetricDefinitionFilter_def tag_loop_consistent)

lemma new_cache_consistent: "cache_consistent e new_cache"
  by (simp add: cache_consistent_def new_cache_def)

lemma run_calls_consistent:
  "cache_consistent e c \<Longrightarrow>
   cache_consistent e (run_calls (expressionNotMatch_GetMetricDefinitionFilter mcs e) calls c)"
  by (induction calls arbitrary: c) (simp_all add: filter_consistent)

lemma filter_decision:
  "cache_consistent e c \<Longrightarrow>
   fst (expressionNotMatch_GetMetricDefinitionFilter mcs e name tags c) = not_match_decision e name tags"
  by (simp add: expressionNotMatch_GetMetricDefinitionFilter_def not_match_decision_def tag_loop_decision)

subsection \<open>The list of filters\<close>

lemma run_undecided_Filter:
  "run_undecided m name tags s = Some s1 \<Longrightarrow> Filter m name tags s = (None_decision, s1)"
proof (induction m arbitrary: s)
  case Nil
  then show ?case by simp
next
  case (Cons f m)
  from Cons.prems have u: "fst (f name tags s) = None_decision"
    and r: "run_undecided m name tags (snd (f name tags s)) = Some s1"
    by (simp_all split: if_splits)
  from u have "Filter (f # m) name tags s = Filter m name tags (snd (f name tags s))"
    by (cases "f name tags s") simp
  with Cons.IH [OF r] show ?case by simp
qed

lemma Filter_append_undecided:
  "run_undecided pre name tags s = Some s1 \<Longrightarrow>
   Filter (pre @ m) name tags s = Filter m name tags s1"
proof (induction pre arbitrary: s)
  case Nil
  then show ?case by simp
next
  case (Cons f pre)
  from Cons.prems have u: "fst (f name tags s) = None_decision"
    and r: "run_undecided pre name tags (snd (f name tags s)) = Some s1"
    by (simp_all split: if_splits)
  from u have "Filter ((f # pre) @ m) name tags s = Filter (pre @ m) name tags (snd (f name tags s))"
    by (cases "f name tags s") simp
  with Cons.IH [OF r] show ?case by simp
qed

lemma Filter_decides_here:
  "f name tags s1 = (d, s2) \<Longrightarrow> d \<noteq> None_decision \<Longrightarrow> Filter (f # post) name tags s1 = (d, s2)"
  by (cases d) simp_all

lemma Filter_cases:
  "(\<exists>s1. run_undecided m name tags s = Some s1) \<or>
   (\<exists>pre f post s1. m = pre @ f # post \<and> run_undecided pre name tags s = Some s1 \<and>
      fst (f name tags s1) \<noteq> None_decision)"
proof (induction m arbitrary: s)
  case Nil
  show ?case by simp
next
  case (Cons g m)
  show ?case
  proof (cases "fst (g name tags s) = None_decision")
    case False
    then have "g # m = [] @ g # m \<and> run_undecided [] name tags s = Some s \<and>
        fst (g name tags s) \<noteq> None_decision" by simp
    then show ?thesis by blast
  next
    case True
    from Cons.IH [of "snd (g name tags s)"] show ?thesis
    proof
      assume "\<exists>s1. run_undecided m name tags (snd (g name tags s)) = Some s1"
      with True show ?thesis by simp
    next
      assume "\<exists>pre f post s1. m = pre @ f # post \<and>
        run_undecided pre name tags (snd (g name tags s)) = Some s1 \<and>
        fst (f name tags s1) \<noteq> None_decision"
      then obtain pre f post s1 where h: "m = pre @ f # post"
        "run_undecided pre name tags (snd (g name tags s)) = Some s1"
        "fst (f name tags s1) \<noteq> None_decision" by blast
      from h True have "g # m = (g # pre) @ f # post \<and>
        run_undecided (g # pre) name tags s = Some s1 \<and> fst (f name tags s1) \<noteq> None_decision"
        by simp
      then show ?thesis by blast
    qed
  qed
qed

section \<open>Claims about the NOT_MATCH expression and the filters\<close>

text \<open>
  Claim C1, as the spec states it, at one input: "for every expression with operator
  NOT_MATCH, \<^verbatim>\<open>RequiresNonEmptyValue()\<close> returns true". On the expression of
  \<^verbatim>\<open>host!=~^web.*\<close> the method returns false.
\<close>

theorem RequiresNonEmptyValue_counterexample:
  "\<not> expressionNotMatch_RequiresNonEmptyValue
       \<lparr>key = ''host'', value = ''^web.*'', matchesEmpty = False,
        valueRe = (\<lambda>s. take 3 s = ''web'')\<rparr>"
  by (simp add: expressionNotMatch_RequiresNonEmptyValue_def)

text \<open>
  Claim C1, amended: for every expression with operator NOT_MATCH,
  \<^verbatim>\<open>RequiresNonEmptyValue()\<close> returns false. (A NOT_MATCH expression also passes the metrics
  that lack the tag, so it is no expression to start a lookup with.)
\<close>

theorem RequiresNonEmptyValue_false:
  "GetOperator (ExpressionNotMatch e) = NOT_MATCH \<and>
   expressionNotMatch_RequiresNonEmptyValue e = False"
  by (simp add: expressionNotMatch_GetOperator_def expressionNotMatch_RequiresNonEmptyValue_def)

text \<open>
  Claim C6, as the spec states it, at one input: "when the key is \<^verbatim>\<open>name\<close> it always
  returns Fail if the compiled pattern matches the name, otherwise Pass". With the key
  \<^verbatim>\<open>name\<close>, an empty value and a pattern that matches the name \<^verbatim>\<open>a.b.c\<close>, the filter returns
  Pass: the source tests \<^verbatim>\<open>e.value == ""\<close> first ("every metric has a name").
\<close>

theorem name_filter_empty_value_counterexample:
  "MatchString (valueRe \<lparr>key = ''name'', value = '''', matchesEmpty = True,
                         valueRe = (\<lambda>s. True)\<rparr>) ''a.b.c'' \<and>
   fst (expressionNotMatch_GetMetricDefinitionFilter 100
          \<lparr>key = ''name'', value = '''', matchesEmpty = True, valueRe = (\<lambda>s. True)\<rparr>
          ''a.b.c'' [''host=web01''] new_cache) = Pass"
  by (simp add: MatchString_def expressionNotMatch_GetMetricDefinitionFilter_def)

text \<open>
  Claim C6, amended: for every NOT_MATCH expression, the closure
  \<^verbatim>\<open>GetMetricDefinitionFilter\<close> returns decides the same on \<open>(name, tags)\<close> whatever calls
  have filled its caches before. On the key \<^verbatim>\<open>name\<close> the decision is Pass when the value of
  the expression is empty, otherwise Fail when the pattern matches the name and Pass when
  it does not, never None. On another key it is taken from the first tag that begins with
  the key and \<^verbatim>\<open>=\<close>: Pass when the value of the expression is empty, otherwise Fail when
  the pattern matches the rest of that tag and Pass when it does not; with no such tag
  the decision is None.
\<close>

theorem filter_decision_any_cache_state:
  "fst (expressionNotMatch_GetMetricDefinitionFilter mcs e name tags
          (run_calls (expressionNotMatch_GetMetricDefinitionFilter mcs e) calls new_cache)) =
     (if key e = ''name'' then
        (if value e = [] then Pass
         else if MatchString (valueRe e) name then Fail else Pass)
      else
        (case find (\<lambda>tag. HasPrefix tag (key e @ ''='')) tags of
           None \<Rightarrow> None_decision
         | Some tag \<Rightarrow>
             if value e = [] then Pass
             else if MatchString (valueRe e) (drop (length (key e) + 1) tag) then Fail
             else Pass))"
  using filter_decision [OF run_calls_consistent [OF new_cache_consistent]]
  by (simp add: not_match_decision_def)

text \<open>
  The theorem at a filter for \<^verbatim>\<open>host!=~^web.*\<close> with room for one entry in each cache: after
  three calls, tags with \<^verbatim>\<open>host=web01\<close> fail (from the match cache), and tags without a
  \<^verbatim>\<open>host\<close> give no decision.
\<close>

theorem filter_decision_any_cache_state_witness:
  "fst (expressionNotMatch_GetMetricDefinitionFilter 1
          \<lparr>key = ''host'', value = ''^web.*'', matchesEmpty = False,
           valueRe = (\<lambda>s. take 3 s = ''web'')\<rparr>
          ''a.b.c'' [''env=prod'', ''host=web01'']
          (run_calls (expressionNotMatch_GetMetricDefinitionFilter 1
              \<lparr>key = ''host'', value = ''^web.*'', matchesEmpty = False,
               valueRe = (\<lambda>s. take 3 s = ''web'')\<rparr>)
             [(''x'', [''host=web01'']), (''y'', [''host=db01'']), (''z'', [''host=web02''])]
             new_cache)) = Fail \<and>
   fst (expressionNotMatch_GetMetricDefinitionFilter 1
          \<lparr>key = ''host'', value = ''^web.*'', matchesEmpty = False,
           valueRe = (\<lambda>s. take 3 s = ''web'')\<rparr>
          ''a.b.c'' [''env=prod'']
          (run_calls (expressionNotMatch_GetMetricDefinitionFilter 1
              \<lparr>key = ''host'', value = ''^web.*'', matchesEmpty = False,
               valueRe = (\<lambda>s. take 3 s = ''web'')\<rparr>)
             [(''x'', [''host=web01''])]
             new_cache)) = None_decision"
  using filter_decision_any_cache_state [of 1
      "\<lparr>key = ''host'', value = ''^web.*'', matchesEmpty = False,
        valueRe = (\<lambda>s. take 3 s = ''web'')\<rparr>"
      "''a.b.c''" "[''env=prod'', ''host=web01'']"
      "[(''x'', [''host=web01'']), (''y'', [''host=db01'']), (''z'', [''host=web02''])]"]
    filter_decision_any_cache_state [of 1
      "\<lparr>key = ''host'', value = ''^web.*'', matchesEmpty = False,
        valueRe = (\<lambda>s. take 3 s = ''web'')\<rparr>"
      "''a.b.c''" "[''env=prod'']" "[(''x'', [''host=web01''])]"]
  by (simp add: HasPrefix_def MatchString_def)

text \<open>
  Claim C8: \<^verbatim>\<open>MetricDefinitionFilters.Filter\<close> returns None when every filter of the list
  returns None; when the filters of a front part \<open>pre\<close> return None and the next filter
  \<open>f\<close> returns Fail or Pass, it returns that decision, with the state \<open>f\<close> left behind:
  the filters \<open>post\<close> after \<open>f\<close> have no part in the result and are not run. Every list is
  of one of the two kinds.
\<close>

theorem Filter_first_conclusive:
  "(run_undecided m name tags s = Some s1 \<longrightarrow> Filter m name tags s = (None_decision, s1)) \<and>
   (run_undecided pre name tags s = Some s2 \<and> f name tags s2 = (d, s3) \<and> d \<noteq> None_decision \<longrightarrow>
      Filter (pre @ f # post) name tags s = (d, s3)) \<and>
   ((\<exists>s'. run_undecided m name tags s = Some s') \<or>
    (\<exists>pre' f' post' s'. m = pre' @ f' # post' \<and> run_undecided pre' name tags s = Some s' \<and>
       fst (f' name tags s') \<noteq> None_decision))"
  using run_undecided_Filter [of m name tags s s1]
    Filter_append_undecided [of pre name tags s s2 "f # post"]
    Filter_decides_here [of f name tags s2 d s3 post]
    Filter_cases [of m name tags s]
  by simp

text \<open>
  The theorem on filters that count their invocations: two filters that return None
  give None after two invocations; of the filters None, Fail, Pass the third is never
  invoked.
\<close>

theorem Filter_first_conclusive_witness:
  "Filter [\<lambda>_ _ n. (None_decision, Suc n), \<lambda>_ _ n. (None_decision, Suc n)] ''a.b.c'' [''host=web01''] (0::nat)
     = (None_decision, 2) \<and>
   Filter [\<lambda>_ _ n. (None_decision, Suc n), \<lambda>_ _ n. (Fail, Suc n), \<lambda>_ _ n. (Pass, Suc n)]
     ''a.b.c'' [''host=web01''] (0::nat) = (Fail, 2)"
  using Filter_first_conclusive [of
      "[\<lambda>_ _ n. (None_decision, Suc n), \<lambda>_ _ n. (None_decision, Suc n)]"
      "''a.b.c''" "[''host=web01'']" "0::nat" 2
      "[\<lambda>_ _ n. (None_decision, Suc n)]" 1 "\<lambda>_ _ n. (Fail, Suc n)" Fail 2
      "[\<lambda>_ _ n. (Pass, Suc n)]"]
  by simp

text \<open>
  Claim C10: for a NOT_MATCH expression whose key is not \<^verbatim>\<open>name\<close>, the first tag \<open>t\<close> of the
  list that begins with the key and \<^verbatim>\<open>=\<close> decides alone: the closure returns the decision
  and leaves the caches as on the list \<open>[t]\<close>, whatever tags \<open>post\<close> follow it (also tags
  with the same key), and the decision is Fail or Pass.
\<close>

theorem first_tag_with_key_decides:
  assumes "key e \<noteq> ''name''"
    and "\<forall>p \<in> set pre. \<not> HasPrefix p (key e @ ''='')"
    and "HasPrefix t (key e @ ''='')"
  shows "expressionNotMatch_GetMetricDefinitionFilter mcs e name (pre @ t # post) c =
           expressionNotMatch_GetMetricDefinitionFilter mcs e name [t] c \<and>
         fst (expressionNotMatch_GetMetricDefinitionFilter mcs e name (pre @ t # post) c)
           \<noteq> None_decision"
proof -
  from assms(1) have f: "\<And>ts. expressionNotMatch_GetMetricDefinitionFilter mcs e name ts c =
      tag_loop mcs e ts c"
    by (simp add: expressionNotMatch_GetMetricDefinitionFilter_def)
  have "tag_loop mcs e (pre @ t # post) c = tag_loop mcs e (t # post) c"
    by (rule tag_loop_skip [OF assms(2)])
  with tag_loop_hit_decides [OF assms(3)] tag_loop_hit_conclusive [OF assms(3)]
  show ?thesis unfolding f by simp
qed

text \<open>
  The theorem on \<^verbatim>\<open>host!=~^web.*\<close> and the tags \<^verbatim>\<open>env=prod\<close>, \<^verbatim>\<open>host=db01\<close>, \<^verbatim>\<open>host=web01\<close>:
  the decision is Pass, from \<^verbatim>\<open>host=db01\<close>; the later \<^verbatim>\<open>host=web01\<close> is not looked at.
\<close>

theorem first_tag_with_key_decides_witness:
  "expressionNotMatch_GetMetricDefinitionFilter 100
      \<lparr>key = ''host'', value = ''^web.*'', matchesEmpty = False,
       valueRe = (\<lambda>s. take 3 s = ''web'')\<rparr>
      ''a.b.c'' [''env=prod'', ''host=db01'', ''host=web01''] new_cache =
   expressionNotMatch_GetMetricDefinitionFilter 100
      \<lparr>key = ''host'', value = ''^web.*'', matchesEmpty = False,
       valueRe = (\<lambda>s. take 3 s = ''web'')\<rparr>
      ''a.b.c'' [''host=db01''] new_cache \<and>
   fst (expressionNotMatch_GetMetricDefinitionFilter 100
      \<lparr>key = ''host'', value = ''^web.*'', matchesEmpty = False,
       valueRe = (\<lambda>s. take 3 s = ''web'')\<rparr>
      ''a.b.c'' [''env=prod'', ''host=db01'', ''host=web01''] new_cache) = Pass"
  using first_tag_with_key_decides [of
      "\<lparr>key = ''host'', value = ''^web.*'', matchesEmpty = False,
        valueRe = (\<lambda>s. take 3 s = ''web'')\<rparr>"
      "[''env=prod'']" "''host=db01''" 100 "''a.b.c''" "[''host=web01'']" new_cache]
  by (simp add: HasPrefix_def MatchString_def expressionNotMatch_GetMetricDefinitionFilter_def
      new_cache_def)

section \<open>The parser, stage by stage\<close>

subsection \<open>The two loops\<close>

lemma byte_at_append: "byte_at (pre @ b # s) (length pre) = Returns b"
  by (simp add: byte_at_def)

lemma FIND_OPERATOR_scan:
  "FIND_OPERATOR (pre @ s) (length pre) =
     (if CHR '';'' \<in> set (takeWhile key_byte s) then Returns Semicolon_in_key
      else Returns (Break (length pre + length (takeWhile key_byte s))
              (take 1 (dropWhile key_byte s) = ''^'') (take 1 (dropWhile key_byte s) = ''!'')))"
proof (induction s arbitrary: pre)
  case Nil
  show ?case by (subst FIND_OPERATOR.simps) simp
next
  case (Cons b s)
  have step: "FIND_OPERATOR (pre @ b # s) (length pre) =
     (if b = CHR ''='' then Returns (Break (length pre) False False)
      else if b = CHR ''!'' then Returns (Break (length pre) False True)
      else if b = CHR ''^'' then Returns (Break (length pre) True False)
      else if b = CHR '';'' then Returns Semicolon_in_key
      else FIND_OPERATOR ((pre @ [b]) @ s) (length (pre @ [b])))"
    by (subst FIND_OPERATOR.simps) (simp add: byte_at_append)
  have kb: "key_byte b = (b \<noteq> CHR ''='' \<and> b \<noteq> CHR ''!'' \<and> b \<noteq> CHR ''^'')"
    by (simp add: key_byte_def)
  show ?case
    unfolding step Cons.IH [of "pre @ [b]"]
    by (simp add: kb)
qed

lemma semicolon_in_value_scan:
  "semicolon_in_value (pre @ s) (length pre) = Returns (CHR '';'' \<in> set s)"
proof (induction s arbitrary: pre)
  case Nil
  show ?case by (subst semicolon_in_value.simps) simp
next
  case (Cons b s)
  have step: "semicolon_in_value (pre @ b # s) (length pre) =
     (if b = CHR '';'' then Returns True
      else semicolon_in_value ((pre @ [b]) @ s) (length (pre @ [b])))"
    by (subst semicolon_in_value.simps) (simp add: byte_at_append)
  show ?case
    unfolding step Cons.IH [of "pre @ [b]"]
    by auto
qed

lemma derive_operator_table:
  "derive_operator prefix regex not' v = operator_table not' prefix regex (v = [])"
  by (simp add: derive_operator_def operator_table_def)

subsection \<open>From the operator to the value\<close>

lemma byte_at_drop:
  "byte_at s i = (case drop i s of [] \<Rightarrow> Panics | b # _ \<Rightarrow> Returns b)"
proof (cases "i < length s")
  case True
  then have "drop i s = s ! i # drop (Suc i) s" by (simp add: Cons_nth_drop_Suc)
  with True show ?thesis by (simp add: byte_at_def)
next
  case False
  then show ?thesis by (simp add: byte_at_def)
qed

lemma semicolon_in_value_drop:
  "semicolon_in_value expr pos = Returns (CHR '';'' \<in> set (drop pos expr))"
proof (cases "pos \<le> length expr")
  case True
  then have "semicolon_in_value (take pos expr @ drop pos expr) (length (take pos expr)) =
      Returns (CHR '';'' \<in> set (drop pos expr))"
    by (simp only: semicolon_in_value_scan)
  with True show ?thesis by simp
next
  case False
  then show ?thesis by (subst semicolon_in_value.simps) simp
qed

lemma anchoring:
  "(if 0 < length (value rc) then
      (case byte_at (value rc) 0 of
         Panics \<Rightarrow> Panics
       | Returns b \<Rightarrow>
           if b \<noteq> CHR ''^''
           then Returns (rc\<lparr>value := (''^(?:'' @ value rc) @ '')''\<rparr>)
           else Returns rc)
    else Returns rc) = Returns (rc\<lparr>value := anchored (value rc)\<rparr>)"
  by (cases "value rc") (simp_all add: byte_at_def anchored_def)

lemma construct_regex:
  assumes "operator = MATCH \<or> operator = NOT_MATCH \<or> operator = MATCH_TAG"
  shows "construct compile expr rc operator =
     (case compile (anchored (value rc)) of
        Inl err \<Rightarrow> Returns (Inl (RegexpError err))
      | Inr re \<Rightarrow>
          Returns (Inr
            (if operator = MATCH then ExpressionMatch (rc\<lparr>value := anchored (value rc)\<rparr>) re
             else if operator = NOT_MATCH then
               ExpressionNotMatch \<lparr>key = key rc, value = anchored (value rc),
                 matchesEmpty = matchesEmpty rc, valueRe = re\<rparr>
             else ExpressionMatchTag (rc\<lparr>value := anchored (value rc)\<rparr>) (Some re))))"
  using assms unfolding construct_def anchoring
  by (auto split: sum.splits)

lemma construct_plain:
  assumes "operator \<noteq> MATCH" "operator \<noteq> NOT_MATCH" "operator \<noteq> MATCH_TAG"
    "operator \<noteq> MATCH_ALL" "operator \<noteq> MATCH_NONE"
  shows "construct compile expr rc operator =
     Returns (Inr
       (if operator = EQUAL then ExpressionEqual rc
        else if operator = NOT_EQUAL then ExpressionNotEqual rc
        else if operator = PREFIX then ExpressionPrefix rc
        else if operator = HAS_TAG then ExpressionHasTag rc
        else if operator = NOT_HAS_TAG then ExpressionNotHasTag rc
        else ExpressionPrefixTag rc))"
  using assms unfolding construct_def
  by (cases operator) simp_all

lemma parse_value_char:
  assumes "valuePos \<le> length expr"
  shows "parse_value compile expr k valuePos prefix regex not' =
     (if CHR '';'' \<in> set (drop valuePos expr) \<or>
         (k = ''__tag'' \<and> (not' \<or> drop valuePos expr = []))
      then Returns (Inl (Errorf (invalidExpressionError expr)))
      else construct compile expr \<lparr>key = k, value = drop valuePos expr, matchesEmpty = False\<rparr>
             (tag_remap k (operator_table not' prefix regex (drop valuePos expr = []))))"
proof (cases "CHR '';'' \<in> set (drop valuePos expr)")
  case True
  then show ?thesis by (simp add: parse_value_def semicolon_in_value_drop)
next
  case False
  with assms show ?thesis
    by (simp add: parse_value_def semicolon_in_value_drop slice_from_def derive_operator_table
        tag_remap_def)
qed

lemma parse_operator_char:
  "parse_operator compile expr k pos prefix not' =
     (if take 1 (drop (if not' \<or> prefix then pos + 1 else pos) expr) \<noteq> ''=''
        \<or> (prefix \<and> take 1 (drop ((if not' \<or> prefix then pos + 1 else pos) + 1) expr) = ''~'')
      then Returns (Inl (Errorf (invalidExpressionError expr)))
      else if take 1 (drop ((if not' \<or> prefix then pos + 1 else pos) + 1) expr) = ''~''
      then parse_value compile expr k ((if not' \<or> prefix then pos + 1 else pos) + 2) prefix True not'
      else parse_value compile expr k ((if not' \<or> prefix then pos + 1 else pos) + 1) prefix False not')"
proof -
  define p where "p = (if not' \<or> prefix then pos + 1 else pos)"
  have d: "drop (p + 1) expr = drop 1 (drop p expr)" by (simp add: add.commute)
  show ?thesis
    unfolding parse_operator_def p_def [symmetric]
  proof (cases "drop p expr")
    case Nil
    then have "length expr \<le> p" by simp
    with Nil show "(if length expr \<le> p then Returns (Inl (Errorf (invalidExpressionError expr)))
     else case byte_at expr p of Panics \<Rightarrow> Panics
          | Returns b \<Rightarrow>
              if b \<noteq> CHR ''='' then Returns (Inl (Errorf (invalidExpressionError expr)))
              else if p + 1 < length expr
                   then case byte_at expr (p + 1) of Panics \<Rightarrow> Panics
                        | Returns b' \<Rightarrow>
                            if b' = CHR ''~''
                            then if prefix then Returns (Inl (Errorf (invalidExpressionError expr)))
                                 else parse_value compile expr k (p + 2) prefix True not'
                            else parse_value compile expr k (p + 1) prefix False not'
                   else parse_value compile expr k (p + 1) prefix False not') =
    (if take 1 (drop p expr) \<noteq> ''='' \<or> prefix \<and> take 1 (drop (p + 1) expr) = ''~''
     then Returns (Inl (Errorf (invalidExpressionError expr)))
     else if take 1 (drop (p + 1) expr) = ''~''
          then parse_value compile expr k (p + 2) prefix True not'
          else parse_value compile expr k (p + 1) prefix False not')" by simp
  next
    case (Cons b a)
    then have lt: "\<not> length expr \<le> p" by (metis drop_all list.distinct(1))
    have len: "(p + 1 < length expr) = (a \<noteq> [])"
      using Cons d by (metis drop_eq_Nil2 One_nat_def drop0 drop_Suc_Cons not_le)
    show "(if length expr \<le> p then Returns (Inl (Errorf (invalidExpressionError expr)))
     else case byte_at expr p of Panics \<Rightarrow> Panics
          | Returns b \<Rightarrow>
              if b \<noteq> CHR ''='' then Returns (Inl (Errorf (invalidExpressionError expr)))
              else if p + 1 < length expr
                   then case byte_at expr (p + 1) of Panics \<Rightarrow> Panics
                        | Returns b' \<Rightarrow>
                            if b' = CHR ''~''
                            then if prefix then Returns (Inl (Errorf (invalidExpressionError expr)))
                                 else parse_value compile expr k (p + 2) prefix True not'
                            else parse_value compile expr k (p + 1) prefix False not'
                   else parse_value compile expr k (p + 1) prefix False not') =
    (if take 1 (drop p expr) \<noteq> ''='' \<or> prefix \<and> take 1 (drop (p + 1) expr) = ''~''
     then Returns (Inl (Errorf (invalidExpressionError expr)))
     else if take 1 (drop (p + 1) expr) = ''~''
          then parse_value compile expr k (p + 2) prefix True not'
          else parse_value compile expr k (p + 1) prefix False not')"
      unfolding byte_at_drop d len Cons using lt
      by (cases a) auto
  qed
qed

subsection \<open>The whole parser\<close>

lemma FIND_OPERATOR_start:
  "FIND_OPERATOR expr 0 =
     (if CHR '';'' \<in> set (key_text expr) then Returns Semicolon_in_key
      else Returns (Break (length (key_text expr)) (prefix_flag expr) (not_flag expr)))"
  using FIND_OPERATOR_scan [of "[]" expr]
  by (simp add: key_text_def after_key_def prefix_flag_def not_flag_def)

lemma slice_to_key: "slice_to expr (length (key_text expr)) = Returns (key_text expr)"
  by (simp add: slice_to_def key_text_def length_takeWhile_le takeWhile_eq_take [symmetric])

lemma drop_key: "drop (length (key_text expr) + n) expr = drop n (after_key expr)"
  by (simp add: key_text_def after_key_def dropWhile_eq_drop add.commute)

lemma take1_length: "take 1 xs = [b] \<Longrightarrow> xs \<noteq> []"
  by auto

lemma parse_operator_key:
  "parse_operator compile expr (key_text expr) (length (key_text expr)) (prefix_flag expr) (not_flag expr) =
     (if structure_after_key_check expr
      then Returns (Inl (Errorf (invalidExpressionError expr)))
      else construct compile expr
             \<lparr>key = key_text expr, value = value_text expr, matchesEmpty = False\<rparr>
             (tag_remap (key_text expr)
                (operator_table (not_flag expr) (prefix_flag expr) (regex_flag expr)
                   (value_text expr = []))))"
proof -
  define k where "k = key_text expr"
  define p where "p = (if not_flag expr \<or> prefix_flag expr then length k + 1 else length k)"
  have dp: "drop p expr = after_flag expr"
    using drop_key [of expr 0] drop_key [of expr 1]
    by (simp add: p_def k_def after_flag_def)
  have dp1: "drop (p + 1) expr = drop 1 (after_flag expr)"
    using dp by (metis add.commute drop_drop)
  have dp2: "drop (p + 2) expr = drop 2 (after_flag expr)"
    using dp by (metis add.commute drop_drop)
  have eq: "(take 1 (drop p expr) \<noteq> ''='') = (has_equals expr = False)"
    by (simp only: dp has_equals_def simp_thms)
  have re: "(take 1 (drop (p + 1) expr) = ''~'') = regex_flag expr"
    by (simp only: dp1 regex_flag_def)
  have po: "parse_operator compile expr (key_text expr) (length (key_text expr))
        (prefix_flag expr) (not_flag expr) =
     (if has_equals expr = False \<or> (prefix_flag expr \<and> regex_flag expr)
      then Returns (Inl (Errorf (invalidExpressionError expr)))
      else if regex_flag expr
      then parse_value compile expr (key_text expr) (p + 2) (prefix_flag expr) True (not_flag expr)
      else parse_value compile expr (key_text expr) (p + 1) (prefix_flag expr) False (not_flag expr))"
    unfolding parse_operator_char k_def [symmetric] p_def [symmetric] eq re ..
  show ?thesis
  proof (cases "has_equals expr = False \<or> (prefix_flag expr \<and> regex_flag expr)")
    case True
    then show ?thesis
      unfolding po by (auto simp: structure_after_key_check_def)
  next
    case False
    then have he: "take 1 (after_flag expr) = ''=''" by (simp add: has_equals_def)
    then have ne: "after_flag expr \<noteq> []" by (rule take1_length)
    with dp have l1: "p + 1 \<le> length expr"
      by (metis Suc_eq_plus1 Suc_leI drop_eq_Nil2 not_le)
    show ?thesis
    proof (cases "regex_flag expr")
      case True
      then have "drop 1 (after_flag expr) \<noteq> []"
        unfolding regex_flag_def by (rule take1_length)
      with dp1 have l2: "p + 2 \<le> length expr"
        by (metis Suc_leI add_2_eq_Suc' drop_eq_Nil2 not_le Suc_eq_plus1)
      from True have vt: "drop (p + 2) expr = value_text expr"
        by (simp only: value_text_def dp2 if_True)
      from True False show ?thesis
        unfolding po parse_value_char [OF l2] vt
        by (auto simp: structure_after_key_check_def)
    next
      case nr: False
      then have vt: "drop (p + 1) expr = value_text expr"
        by (simp only: value_text_def dp1 if_False)
      from nr False show ?thesis
        unfolding po parse_value_char [OF l1] vt
        by (auto simp: structure_after_key_check_def)
    qed
  qed
qed

lemma ParseExpression_char:
  "ParseExpression vk compile expr =
     (if structure_before_key_check expr
      then Returns (Inl (Errorf (invalidExpressionError expr)))
      else
        (case vk (key_text expr) of
           Some err \<Rightarrow> Returns (Inl (Errorf (keyValidationError (key_text expr) expr err)))
         | None \<Rightarrow>
             if structure_after_key_check expr
             then Returns (Inl (Errorf (invalidExpressionError expr)))
             else construct compile expr
                    \<lparr>key = key_text expr, value = value_text expr, matchesEmpty = False\<rparr>
                    (tag_remap (key_text expr)
                       (operator_table (not_flag expr) (prefix_flag expr) (regex_flag expr)
                          (value_text expr = [])))))"
  unfolding ParseExpression_def FIND_OPERATOR_start
  by (simp add: structure_before_key_check_def slice_to_key parse_operator_key
      split: option.splits)

subsection \<open>What the last stage returns\<close>

lemma table_operator_real:
  "tag_remap k (operator_table n p r e) \<noteq> MATCH_ALL \<and>
   tag_remap k (operator_table n p r e) \<noteq> MATCH_NONE"
  by (simp add: tag_remap_def operator_table_def)

lemma table_operator_regex:
  assumes "\<not> (p \<and> r)"
  shows "(tag_remap k (operator_table n p r e) = MATCH \<or>
          tag_remap k (operator_table n p r e) = NOT_MATCH \<or>
          tag_remap k (operator_table n p r e) = MATCH_TAG) = (r \<and> \<not> e)"
  using assms by (auto simp: tag_remap_def operator_table_def)

lemma construct_returns: "construct compile expr rc operator \<noteq> Panics"
proof (cases "operator = MATCH \<or> operator = NOT_MATCH \<or> operator = MATCH_TAG")
  case True
  then show ?thesis by (simp add: construct_regex split: sum.splits)
next
  case False
  then show ?thesis unfolding construct_def by (cases operator) simp_all
qed

lemma construct_error:
  assumes "operator \<noteq> MATCH_ALL" "operator \<noteq> MATCH_NONE"
  shows "(\<exists>err. construct compile expr rc operator = Returns (Inl err)) =
         ((operator = MATCH \<or> operator = NOT_MATCH \<or> operator = MATCH_TAG) \<and>
          isl (compile (anchored (value rc))))"
proof (cases "operator = MATCH \<or> operator = NOT_MATCH \<or> operator = MATCH_TAG")
  case True
  then show ?thesis by (simp add: construct_regex split: sum.splits)
next
  case False
  with assms show ?thesis by (simp add: construct_plain)
qed

lemma construct_error_kind:
  assumes "operator \<noteq> MATCH_ALL" "operator \<noteq> MATCH_NONE"
    and "construct compile expr rc operator = Returns (Inl err)"
  shows "compile (anchored (value rc)) = Inl (case err of RegexpError m \<Rightarrow> m | Errorf m \<Rightarrow> m) \<and>
         err = RegexpError (case err of RegexpError m \<Rightarrow> m | Errorf m \<Rightarrow> m)"
proof (cases "operator = MATCH \<or> operator = NOT_MATCH \<or> operator = MATCH_TAG")
  case True
  with assms(3) show ?thesis by (auto simp: construct_regex split: sum.splits)
next
  case False
  with assms show ?thesis by (simp add: construct_plain)
qed

lemma construct_accessors:
  assumes "construct compile expr rc operator = Returns (Inr x)"
  shows "GetOperator x = operator \<and> GetKey x = key rc \<and>
         GetValue x = (if operator = MATCH \<or> operator = NOT_MATCH \<or> operator = MATCH_TAG
                       then anchored (value rc) else value rc)"
proof (cases "operator = MATCH \<or> operator = NOT_MATCH \<or> operator = MATCH_TAG")
  case True
  with assms show ?thesis
    by (auto simp: construct_regex expressionNotMatch_GetOperator_def split: sum.splits)
next
  case False
  with assms show ?thesis unfolding construct_def by (cases operator) auto
qed

lemma construct_NotMatch:
  assumes "construct compile expr rc operator = Returns (Inr (ExpressionNotMatch e))"
  shows "matchesEmpty e = matchesEmpty rc"
proof (cases "operator = MATCH \<or> operator = NOT_MATCH \<or> operator = MATCH_TAG")
  case True
  with assms show ?thesis
    by (auto simp: construct_regex split: sum.splits if_splits)
next
  case False
  with assms show ?thesis unfolding construct_def by (cases operator) auto
qed

lemma ParseExpression_accepted:
  assumes "ParseExpression vk compile expr = Returns (Inr x)"
  shows "\<not> structure_before_key_check expr \<and> vk (key_text expr) = None \<and>
         \<not> structure_after_key_check expr \<and>
         construct compile expr
           \<lparr>key = key_text expr, value = value_text expr, matchesEmpty = False\<rparr>
           (tag_remap (key_text expr)
              (operator_table (not_flag expr) (prefix_flag expr) (regex_flag expr)
                 (value_text expr = []))) = Returns (Inr x)"
  using assms unfolding ParseExpression_char
  by (auto split: if_splits option.splits)

lemma parsed_matchesEmpty:
  assumes "ParseExpression vk compile expr = Returns (Inr (ExpressionNotMatch e))"
  shows "matchesEmpty e = False"
  using construct_NotMatch ParseExpression_accepted [OF assms] by fastforce

lemma parsed_default_decision:
  assumes "ParseExpression vk compile expr = Returns (Inr (ExpressionNotMatch e))"
  shows "expressionNotMatch_GetDefaultDecision e = Pass"
  using parsed_matchesEmpty [OF assms] by (simp add: expressionNotMatch_GetDefaultDecision_def)

lemma StringIntoBuilder_form:
  "StringIntoBuilder x builder =
     builder @ GetKey x @ ExpressionOperator_StringIntoBuilder (GetOperator x) [] @ GetValue x"
  by (cases x)
    (simp_all add: expressionNotMatch_StringIntoBuilder_def expressionNotMatch_GetOperator_def)

subsection \<open>Texts of the form key, operator, value\<close>

lemma key_then_terminator:
  assumes "\<forall>b \<in> set k. key_byte b" "\<not> key_byte c"
  shows "key_text (k @ c # rest) = k \<and> after_key (k @ c # rest) = c # rest"
  using assms
  by (simp add: key_text_def after_key_def takeWhile_append2 dropWhile_append2)

lemma not_regex_text:
  assumes "\<forall>b \<in> set k. key_byte b"
  shows "key_text (k @ ''!=~'' @ v) = k \<and> not_flag (k @ ''!=~'' @ v) \<and>
         \<not> prefix_flag (k @ ''!=~'' @ v) \<and> has_equals (k @ ''!=~'' @ v) \<and>
         regex_flag (k @ ''!=~'' @ v) \<and> value_text (k @ ''!=~'' @ v) = v"
proof -
  have nk: "\<not> key_byte CHR ''!''" by (simp add: key_byte_def)
  from key_then_terminator [of k "CHR ''!''" "''=~'' @ v", OF assms nk]
  have kt: "key_text (k @ ''!=~'' @ v) = k"
    and ak: "after_key (k @ CHR ''!'' # CHR ''='' # CHR ''~'' # v) = CHR ''!'' # CHR ''='' # CHR ''~'' # v"
    by simp_all
  have nf: "not_flag (k @ ''!=~'' @ v)" and pf: "\<not> prefix_flag (k @ ''!=~'' @ v)"
    by (simp_all add: not_flag_def prefix_flag_def ak)
  have af: "after_flag (k @ CHR ''!'' # CHR ''='' # CHR ''~'' # v) = CHR ''='' # CHR ''~'' # v"
    using nf by (simp add: after_flag_def ak)
  have rf: "regex_flag (k @ ''!=~'' @ v)" by (simp add: regex_flag_def af)
  with kt nf pf af show ?thesis by (simp add: has_equals_def value_text_def)
qed

lemma regex_text:
  assumes "\<forall>b \<in> set k. key_byte b"
  shows "key_text (k @ ''=~'' @ v) = k \<and> \<not> not_flag (k @ ''=~'' @ v) \<and>
         \<not> prefix_flag (k @ ''=~'' @ v) \<and> has_equals (k @ ''=~'' @ v) \<and>
         regex_flag (k @ ''=~'' @ v) \<and> value_text (k @ ''=~'' @ v) = v"
proof -
  have nk: "\<not> key_byte CHR ''=''" by (simp add: key_byte_def)
  from key_then_terminator [of k "CHR ''=''" "''~'' @ v", OF assms nk]
  have kt: "key_text (k @ ''=~'' @ v) = k"
    and ak: "after_key (k @ CHR ''='' # CHR ''~'' # v) = CHR ''='' # CHR ''~'' # v"
    by simp_all
  have nf: "\<not> not_flag (k @ ''=~'' @ v)" and pf: "\<not> prefix_flag (k @ ''=~'' @ v)"
    by (simp_all add: not_flag_def prefix_flag_def ak)
  have af: "after_flag (k @ CHR ''='' # CHR ''~'' # v) = CHR ''='' # CHR ''~'' # v"
    using nf pf by (simp add: after_flag_def ak)
  have rf: "regex_flag (k @ ''=~'' @ v)" by (simp add: regex_flag_def af)
  with kt nf pf af show ?thesis by (simp add: has_equals_def value_text_def)
qed

lemma parse_not_regex:
  assumes "k \<noteq> []" "\<forall>b \<in> set k. key_byte b \<and> b \<noteq> CHR '';''" "vk k = None"
    "v \<noteq> []" "CHR '';'' \<notin> set v" "k \<noteq> ''__tag''"
  shows "ParseExpression vk compile (k @ ''!=~'' @ v) =
     (case compile (anchored v) of
        Inl err \<Rightarrow> Returns (Inl (RegexpError err))
      | Inr re \<Rightarrow>
          Returns (Inr (ExpressionNotMatch
            \<lparr>key = k, value = anchored v, matchesEmpty = False, valueRe = re\<rparr>)))"
proof -
  from assms(2) have kb: "\<forall>b \<in> set k. key_byte b" by simp
  note t = not_regex_text [of k v, OF kb]
  from assms(2) have sk: "CHR '';'' \<notin> set k" by blast
  from t assms(1) sk have b: "\<not> structure_before_key_check (k @ ''!=~'' @ v)"
    by (simp add: structure_before_key_check_def)
  from t assms(5,6) have a: "\<not> structure_after_key_check (k @ ''!=~'' @ v)"
    by (simp add: structure_after_key_check_def)
  from t assms(4,6) have op: "tag_remap (key_text (k @ ''!=~'' @ v))
     (operator_table (not_flag (k @ ''!=~'' @ v)) (prefix_flag (k @ ''!=~'' @ v))
        (regex_flag (k @ ''!=~'' @ v)) (value_text (k @ ''!=~'' @ v) = [])) = NOT_MATCH"
    by (simp add: tag_remap_def operator_table_def)
  show ?thesis
    unfolding ParseExpression_char op using a b t assms(3)
    by (simp add: construct_regex split: sum.splits)
qed

lemma parse_regex:
  assumes "k \<noteq> []" "\<forall>b \<in> set k. key_byte b \<and> b \<noteq> CHR '';''" "vk k = None"
    "v \<noteq> []" "CHR '';'' \<notin> set v"
  shows "ParseExpression vk compile (k @ ''=~'' @ v) =
     (case compile (anchored v) of
        Inl err \<Rightarrow> Returns (Inl (RegexpError err))
      | Inr re \<Rightarrow>
          Returns (Inr
            (if k = ''__tag''
             then ExpressionMatchTag \<lparr>key = k, value = anchored v, matchesEmpty = False\<rparr> (Some re)
             else ExpressionMatch \<lparr>key = k, value = anchored v, matchesEmpty = False\<rparr> re)))"
proof -
  from assms(2) have kb: "\<forall>b \<in> set k. key_byte b" by simp
  note t = regex_text [of k v, OF kb]
  from assms(2) have sk: "CHR '';'' \<notin> set k" by blast
  from t assms(1) sk have b: "\<not> structure_before_key_check (k @ ''=~'' @ v)"
    by (simp add: structure_before_key_check_def)
  from t assms(4,5) have a: "\<not> structure_after_key_check (k @ ''=~'' @ v)"
    by (simp add: structure_after_key_check_def)
  from t assms(4) have op: "tag_remap (key_text (k @ ''=~'' @ v))
     (operator_table (not_flag (k @ ''=~'' @ v)) (prefix_flag (k @ ''=~'' @ v))
        (regex_flag (k @ ''=~'' @ v)) (value_text (k @ ''=~'' @ v) = [])) =
     (if k = ''__tag'' then MATCH_TAG else MATCH)"
    by (simp add: tag_remap_def operator_table_def)
  show ?thesis
    unfolding ParseExpression_char op using a b t assms(3)
    by (simp add: construct_regex split: sum.splits)
qed

subsection \<open>Evaluation at concrete inputs\<close>

lemmas parse_eval =
  ParseExpression_def parse_operator_def parse_value_def construct_def derive_operator_def
  byte_at_def slice_to_def slice_from_def sample_validateKey_def sample_Compile_def
  FIND_OPERATOR.simps semicolon_in_value.simps invalidExpressionError_def

lemmas text_eval =
  key_text_def after_key_def not_flag_def prefix_flag_def after_flag_def has_equals_def
  regex_flag_def value_text_def key_byte_def operator_table_def tag_remap_def

lemma eval_not_match:
  "ParseExpression sample_validateKey sample_Compile ''host!=~foo'' =
     Returns (Inr (ExpressionNotMatch
       \<lparr>key = ''host'', value = ''^(?:foo)'', matchesEmpty = False,
        valueRe = (\<lambda>s. take 3 s = ''foo'')\<rparr>))"
  by (simp add: parse_eval)

lemma eval_tag_prefix:
  "ParseExpression sample_validateKey sample_Compile ''__tag^=ho'' =
     Returns (Inr (ExpressionPrefixTag \<lparr>key = ''__tag'', value = ''ho'', matchesEmpty = False\<rparr>))"
  by (simp add: parse_eval)

lemma eval_equal:
  "ParseExpression sample_validateKey sample_Compile ''host=web01'' =
     Returns (Inr (ExpressionEqual \<lparr>key = ''host'', value = ''web01'', matchesEmpty = False\<rparr>))"
  by (simp add: parse_eval)

section \<open>The order of \<^verbatim>\<open>SortByFilterOrder\<close>\<close>

lemma costByOperator_inj: "costByOperator a = costByOperator b \<Longrightarrow> a = b"
  by (cases a; cases b) simp_all

lemma filter_order_less_key:
  "filter_order_less a b = (filter_order_key a < filter_order_key b)"
proof (cases "GetOperator a = GetOperator b")
  case True
  then show ?thesis
    by (auto simp: filter_order_less_def filter_order_key_def)
next
  case False
  then have "costByOperator (GetOperator a) \<noteq> costByOperator (GetOperator b)"
    using costByOperator_inj by blast
  with False show ?thesis
    by (auto simp: filter_order_less_def filter_order_key_def)
qed



lemma filter_order_tie:
  "(\<not> filter_order_less a b \<and> \<not> filter_order_less b a) = ExpressionsAreEqual a b"
  unfolding filter_order_less_key
  using costByOperator_inj [of "GetOperator a" "GetOperator b"]
  by (auto simp: filter_order_key_def ExpressionsAreEqual_def)





section \<open>Claims about the parser\<close>

text \<open>
  Claim C2, as the spec states it, at one input: "the constructed expression carries the
  original pre-rewrite value: \<^verbatim>\<open>GetValue()\<close> returns the value exactly as written in the
  query text, and \<^verbatim>\<open>StringIntoBuilder\<close> serializes key, operator token, and that original
  value". The text \<^verbatim>\<open>host!=~foo\<close> has the value \<^verbatim>\<open>foo\<close>; the expression parsed from it has
  the value \<^verbatim>\<open>^(?:foo)\<close> and is written back as \<^verbatim>\<open>host!=~^(?:foo)\<close>.
\<close>

theorem parsed_regex_value_counterexample:
  "value_text ''host!=~foo'' = ''foo'' \<and>
   ParseExpression sample_validateKey sample_Compile ''host!=~foo'' =
     Returns (Inr (ExpressionNotMatch
       \<lparr>key = ''host'', value = ''^(?:foo)'', matchesEmpty = False,
        valueRe = (\<lambda>s. take 3 s = ''foo'')\<rparr>)) \<and>
   GetValue (ExpressionNotMatch
       \<lparr>key = ''host'', value = ''^(?:foo)'', matchesEmpty = False,
        valueRe = (\<lambda>s. take 3 s = ''foo'')\<rparr>) \<noteq> ''foo'' \<and>
   StringIntoBuilder (ExpressionNotMatch
       \<lparr>key = ''host'', value = ''^(?:foo)'', matchesEmpty = False,
        valueRe = (\<lambda>s. take 3 s = ''foo'')\<rparr>) '''' = ''host!=~^(?:foo)''"
  by (simp add: parse_eval text_eval expressionNotMatch_StringIntoBuilder_def)

text \<open>
  Claim C2, amended: for every successfully parsed regex expression (operators MATCH,
  NOT_MATCH, MATCH_TAG) whose textual value does not start with \<^verbatim>\<open>^\<close>, the constructed
  expression carries the rewritten value: \<^verbatim>\<open>GetValue()\<close> returns \<^verbatim>\<open>^(?:\<close>, the value as
  written, \<^verbatim>\<open>)\<close>, and \<^verbatim>\<open>StringIntoBuilder\<close> appends the key, the operator token and that
  rewritten value.
\<close>

theorem parsed_regex_value_is_anchored:
  assumes "ParseExpression vk compile expr = Returns (Inr x)"
    and "GetOperator x = MATCH \<or> GetOperator x = NOT_MATCH \<or> GetOperator x = MATCH_TAG"
    and "take 1 (value_text expr) \<noteq> ''^''"
  shows "GetValue x = ''^(?:'' @ value_text expr @ '')'' \<and>
         StringIntoBuilder x builder =
           builder @ key_text expr @ ExpressionOperator_StringIntoBuilder (GetOperator x) [] @
           ''^(?:'' @ value_text expr @ '')''"
proof -
  let ?op = "tag_remap (key_text expr)
     (operator_table (not_flag expr) (prefix_flag expr) (regex_flag expr) (value_text expr = []))"
  note acc = ParseExpression_accepted [OF assms(1)]
  from acc have c: "construct compile expr
      \<lparr>key = key_text expr, value = value_text expr, matchesEmpty = False\<rparr> ?op = Returns (Inr x)"
    by simp
  note g = construct_accessors [OF c]
  from g assms(2) have r: "?op = MATCH \<or> ?op = NOT_MATCH \<or> ?op = MATCH_TAG" by simp
  from acc have "\<not> (prefix_flag expr \<and> regex_flag expr)"
    by (simp add: structure_after_key_check_def)
  from table_operator_regex [OF this, of "key_text expr" "not_flag expr" "value_text expr = []"] r
  have ne: "value_text expr \<noteq> []" by simp
  with assms(3) have a: "anchored (value_text expr) = ''^(?:'' @ value_text expr @ '')''"
    by (simp add: anchored_def)
  from g r a have v: "GetValue x = ''^(?:'' @ value_text expr @ '')''" by simp
  from g have k: "GetKey x = key_text expr" by simp
  show ?thesis unfolding StringIntoBuilder_form v k by simp
qed

text \<open>The theorem at the text \<^verbatim>\<open>host!=~foo\<close>.\<close>

theorem parsed_regex_value_is_anchored_witness:
  "GetValue (ExpressionNotMatch
       \<lparr>key = ''host'', value = ''^(?:foo)'', matchesEmpty = False,
        valueRe = (\<lambda>s. take 3 s = ''foo'')\<rparr>) = ''^(?:foo)'' \<and>
   StringIntoBuilder (ExpressionNotMatch
       \<lparr>key = ''host'', value = ''^(?:foo)'', matchesEmpty = False,
        valueRe = (\<lambda>s. take 3 s = ''foo'')\<rparr>) ''query: '' = ''query: host!=~^(?:foo)'' \<and>
   ParseExpression sample_validateKey sample_Compile ''host!=~foo'' =
     Returns (Inr (ExpressionNotMatch
       \<lparr>key = ''host'', value = ''^(?:foo)'', matchesEmpty = False,
        valueRe = (\<lambda>s. take 3 s = ''foo'')\<rparr>)) \<and>
   take 1 (value_text ''host!=~foo'') = ''f''"
proof -
  have t: "take 1 (value_text ''host!=~foo'') \<noteq> ''^''" "value_text ''host!=~foo'' = ''foo''"
    "key_text ''host!=~foo'' = ''host''"
    by (simp_all add: text_eval)
  have o: "GetOperator (ExpressionNotMatch
       \<lparr>key = ''host'', value = ''^(?:foo)'', matchesEmpty = False,
        valueRe = (\<lambda>s. take 3 s = ''foo'')\<rparr>) = MATCH \<or>
     GetOperator (ExpressionNotMatch
       \<lparr>key = ''host'', value = ''^(?:foo)'', matchesEmpty = False,
        valueRe = (\<lambda>s. take 3 s = ''foo'')\<rparr>) = NOT_MATCH \<or>
     GetOperator (ExpressionNotMatch
       \<lparr>key = ''host'', value = ''^(?:foo)'', matchesEmpty = False,
        valueRe = (\<lambda>s. take 3 s = ''foo'')\<rparr>) = MATCH_TAG"
    by (simp add: expressionNotMatch_GetOperator_def)
  from parsed_regex_value_is_anchored [OF eval_not_match o t(1), of "''query: ''"] eval_not_match t
  show ?thesis by (simp add: expressionNotMatch_GetOperator_def)
qed

text \<open>
  Claim C3: for a key \<open>k\<close> that the parser accepts (not empty, without \<^verbatim>\<open>=\<close>, \<^verbatim>\<open>!\<close>, \<^verbatim>\<open>^\<close>
  and \<^verbatim>\<open>;\<close>, passing the validation) and a value \<open>v\<close> that is not empty and has no \<^verbatim>\<open>;\<close>:
  parsing \<open>k\<close>\<^verbatim>\<open>!=~\<close>\<open>v\<close> (for \<open>k\<close> other than \<^verbatim>\<open>__tag\<close>, which admits no \<^verbatim>\<open>!\<close>) and parsing
  \<open>k\<close>\<^verbatim>\<open>=~\<close>\<open>v\<close> hand the compiler the pattern \<^verbatim>\<open>^(?:\<close>\<open>v\<close>\<^verbatim>\<open>)\<close> when \<open>v\<close> does not start with
  \<^verbatim>\<open>^\<close>, and \<open>v\<close> itself when it does; the expression holds what the compiler returns.
  Hence, for \<open>v\<close> that does not start with \<^verbatim>\<open>^\<close>, parsing \<open>k\<close>\<^verbatim>\<open>!=~\<close>\<open>v\<close> and parsing
  \<open>k\<close>\<^verbatim>\<open>!=~^(?:\<close>\<open>v\<close>\<^verbatim>\<open>)\<close> return the same result, and the filters of the two expressions
  agree on every name, tag list and cache state.
\<close>

theorem regex_value_is_anchored_once:
  assumes "k \<noteq> []" and "\<forall>b \<in> set k. key_byte b \<and> b \<noteq> CHR '';''" and "vk k = None"
    and "v \<noteq> []" and "CHR '';'' \<notin> set v"
  shows
    "(k \<noteq> ''__tag'' \<longrightarrow>
        ParseExpression vk compile (k @ ''!=~'' @ v) =
          (case compile (if take 1 v = ''^'' then v else ''^(?:'' @ v @ '')'') of
             Inl err \<Rightarrow> Returns (Inl (RegexpError err))
           | Inr re \<Rightarrow>
               Returns (Inr (ExpressionNotMatch
                 \<lparr>key = k, value = (if take 1 v = ''^'' then v else ''^(?:'' @ v @ '')''),
                  matchesEmpty = False, valueRe = re\<rparr>)))) \<and>
     ParseExpression vk compile (k @ ''=~'' @ v) =
       (case compile (if take 1 v = ''^'' then v else ''^(?:'' @ v @ '')'') of
          Inl err \<Rightarrow> Returns (Inl (RegexpError err))
        | Inr re \<Rightarrow>
            Returns (Inr
              (if k = ''__tag''
               then ExpressionMatchTag
                      \<lparr>key = k, value = (if take 1 v = ''^'' then v else ''^(?:'' @ v @ '')''),
                       matchesEmpty = False\<rparr> (Some re)
               else ExpressionMatch
                      \<lparr>key = k, value = (if take 1 v = ''^'' then v else ''^(?:'' @ v @ '')''),
                       matchesEmpty = False\<rparr> re))) \<and>
     (k \<noteq> ''__tag'' \<and> take 1 v \<noteq> ''^'' \<longrightarrow>
        ParseExpression vk compile (k @ ''!=~'' @ v) =
          ParseExpression vk compile (k @ ''!=~'' @ ''^(?:'' @ v @ '')'') \<and>
        (\<forall>e1 e2.
           ParseExpression vk compile (k @ ''!=~'' @ v) = Returns (Inr (ExpressionNotMatch e1)) \<and>
           ParseExpression vk compile (k @ ''!=~'' @ ''^(?:'' @ v @ '')'') =
             Returns (Inr (ExpressionNotMatch e2)) \<longrightarrow>
           (\<forall>mcs name tags c.
              expressionNotMatch_GetMetricDefinitionFilter mcs e1 name tags c =
              expressionNotMatch_GetMetricDefinitionFilter mcs e2 name tags c)))"
proof -
  from assms(4) have an: "anchored v = (if take 1 v = ''^'' then v else ''^(?:'' @ v @ '')'')"
    by (simp add: anchored_def)
  have same: "k \<noteq> ''__tag'' \<Longrightarrow> take 1 v \<noteq> ''^'' \<Longrightarrow>
      ParseExpression vk compile (k @ ''!=~'' @ v) =
      ParseExpression vk compile (k @ ''!=~'' @ ''^(?:'' @ v @ '')'')"
  proof -
    assume nt: "k \<noteq> ''__tag''" and nc: "take 1 v \<noteq> ''^''"
    have w: "''^(?:'' @ v @ '')'' \<noteq> []" "CHR '';'' \<notin> set (''^(?:'' @ v @ '')'')"
      using assms(5) by simp_all
    from nc assms(4) have aw: "anchored (''^(?:'' @ v @ '')'') = anchored v"
      by (simp add: anchored_def)
    show ?thesis
      unfolding parse_not_regex [of k vk v compile, OF assms(1,2,3,4,5) nt]
        parse_not_regex [of k vk "''^(?:'' @ v @ '')''" compile, OF assms(1,2,3) w nt] aw ..
  qed
  from parse_not_regex [of k vk v compile, OF assms]
    parse_regex [of k vk v compile, OF assms] same
  show ?thesis
    unfolding an by auto
qed

text \<open>The theorem at the key \<^verbatim>\<open>host\<close> and the value \<^verbatim>\<open>foo\<close>.\<close>

theorem regex_value_is_anchored_once_witness:
  "ParseExpression sample_validateKey sample_Compile ''host!=~foo'' =
     Returns (Inr (ExpressionNotMatch
       \<lparr>key = ''host'', value = ''^(?:foo)'', matchesEmpty = False,
        valueRe = (\<lambda>s. take 3 s = ''foo'')\<rparr>)) \<and>
   ParseExpression sample_validateKey sample_Compile ''host!=~^(?:foo)'' =
     Returns (Inr (ExpressionNotMatch
       \<lparr>key = ''host'', value = ''^(?:foo)'', matchesEmpty = False,
        valueRe = (\<lambda>s. take 3 s = ''foo'')\<rparr>)) \<and>
   ParseExpression sample_validateKey sample_Compile ''host=~foo'' =
     Returns (Inr (ExpressionMatch \<lparr>key = ''host'', value = ''^(?:foo)'', matchesEmpty = False\<rparr>
       (\<lambda>s. take 3 s = ''foo'')))"
proof -
  have h: "''host'' \<noteq> []" "\<forall>b \<in> set ''host''. key_byte b \<and> b \<noteq> CHR '';''"
    "sample_validateKey ''host'' = None" "''foo'' \<noteq> []" "CHR '';'' \<notin> set ''foo''"
    by (simp_all add: key_byte_def sample_validateKey_def)
  have nt: "''host'' \<noteq> ''__tag''" and nc: "take 1 ''foo'' \<noteq> ''^''"
    by simp_all
  note r = regex_value_is_anchored_once [of "''host''" sample_validateKey "''foo''" sample_Compile, OF h]
  from r [THEN conjunct1, rule_format, OF nt]
  have a: "ParseExpression sample_validateKey sample_Compile ''host!=~foo'' =
     Returns (Inr (ExpressionNotMatch
       \<lparr>key = ''host'', value = ''^(?:foo)'', matchesEmpty = False,
        valueRe = (\<lambda>s. take 3 s = ''foo'')\<rparr>))"
    by (simp add: sample_Compile_def)
  from r [THEN conjunct2, THEN conjunct1]
  have b: "ParseExpression sample_validateKey sample_Compile ''host=~foo'' =
     Returns (Inr (ExpressionMatch \<lparr>key = ''host'', value = ''^(?:foo)'', matchesEmpty = False\<rparr>
       (\<lambda>s. take 3 s = ''foo'')))"
    by (simp add: sample_Compile_def)
  from r [THEN conjunct2, THEN conjunct2, rule_format, OF conjI [OF nt nc], THEN conjunct1]
  have c: "ParseExpression sample_validateKey sample_Compile ''host!=~foo'' =
     ParseExpression sample_validateKey sample_Compile ''host!=~^(?:foo)''"
    by simp
  from a b c show ?thesis by simp
qed

text \<open>
  Claim C4: when \<^verbatim>\<open>ParseExpression\<close> accepts a text, the operator of the expression it
  returns is the one the table gives for the flags "not", "prefix", "regex" and "value
  is empty" read off the text, after the remapping of PREFIX and MATCH for the key
  \<^verbatim>\<open>__tag\<close>; the key of the expression is the text before the operator.
\<close>

theorem parsed_operator_follows_table:
  assumes "ParseExpression vk compile expr = Returns (Inr x)"
  shows "GetOperator x =
           tag_remap (key_text expr)
             (operator_table (not_flag expr) (prefix_flag expr) (regex_flag expr)
                (value_text expr = [])) \<and>
         GetKey x = key_text expr"
  using construct_accessors ParseExpression_accepted [OF assms] by fastforce

text \<open>The theorem at the text \<^verbatim>\<open>__tag^=ho\<close>: the flag "prefix" alone, remapped to PREFIX_TAG.\<close>

theorem parsed_operator_follows_table_witness:
  "ParseExpression sample_validateKey sample_Compile ''__tag^=ho'' =
     Returns (Inr (ExpressionPrefixTag \<lparr>key = ''__tag'', value = ''ho'', matchesEmpty = False\<rparr>)) \<and>
   not_flag ''__tag^=ho'' = False \<and> prefix_flag ''__tag^=ho'' = True \<and>
   regex_flag ''__tag^=ho'' = False \<and> value_text ''__tag^=ho'' = ''ho'' \<and>
   GetOperator (ExpressionPrefixTag \<lparr>key = ''__tag'', value = ''ho'', matchesEmpty = False\<rparr>)
     = PREFIX_TAG \<and>
   tag_remap (key_text ''__tag^=ho'')
     (operator_table (not_flag ''__tag^=ho'') (prefix_flag ''__tag^=ho'')
        (regex_flag ''__tag^=ho'') (value_text ''__tag^=ho'' = [])) = PREFIX_TAG"
  using parsed_operator_follows_table [OF eval_tag_prefix] eval_tag_prefix
  by (simp add: text_eval)

text \<open>
  Claim C5: \<^verbatim>\<open>ParseExpression\<close> never panics, and it returns an error exactly on the
  malformed inputs. The checks fail in the order of the source, and the error is the one
  of the first check that fails: a semicolon in the key or an empty key gives
  "Invalid expression: " followed by the text; otherwise a key the validation rejects
  gives the error that wraps the validation's message; otherwise a missing \<^verbatim>\<open>=\<close>, \<^verbatim>\<open>^\<close> with
  \<^verbatim>\<open>=~\<close>, a semicolon in the value or a misuse of \<^verbatim>\<open>__tag\<close> gives "Invalid expression: "
  followed by the text; otherwise a pattern that does not compile gives the compiler's
  error as it is.
\<close>

theorem ParseExpression_errors:
  "ParseExpression vk compile expr \<noteq> Panics \<and>
   ((\<exists>err. ParseExpression vk compile expr = Returns (Inl err)) = malformed vk compile expr) \<and>
   (structure_before_key_check expr \<or>
    (vk (key_text expr) = None \<and> structure_after_key_check expr) \<longrightarrow>
      ParseExpression vk compile expr = Returns (Inl (Errorf (invalidExpressionError expr)))) \<and>
   (\<not> structure_before_key_check expr \<and> vk (key_text expr) = Some kerr \<longrightarrow>
      ParseExpression vk compile expr =
        Returns (Inl (Errorf (keyValidationError (key_text expr) expr kerr)))) \<and>
   (\<not> structure_before_key_check expr \<and> vk (key_text expr) = None \<and>
    \<not> structure_after_key_check expr \<and> regex_flag expr \<and> value_text expr \<noteq> [] \<and>
    compile (anchored (value_text expr)) = Inl rerr \<longrightarrow>
      ParseExpression vk compile expr = Returns (Inl (RegexpError rerr)))"
proof -
  let ?op = "tag_remap (key_text expr)
     (operator_table (not_flag expr) (prefix_flag expr) (regex_flag expr) (value_text expr = []))"
  let ?rc = "\<lparr>key = key_text expr, value = value_text expr, matchesEmpty = False\<rparr>"
  have panics: "ParseExpression vk compile expr \<noteq> Panics"
    unfolding ParseExpression_char
    by (simp add: construct_returns split: option.splits)
  have regex: "\<not> structure_after_key_check expr \<Longrightarrow>
      (?op = MATCH \<or> ?op = NOT_MATCH \<or> ?op = MATCH_TAG) =
      (regex_flag expr \<and> value_text expr \<noteq> [])"
    using table_operator_regex [of "prefix_flag expr" "regex_flag expr" "key_text expr"
        "not_flag expr" "value_text expr = []"]
    by (simp add: structure_after_key_check_def)
  have cerr: "\<not> structure_after_key_check expr \<Longrightarrow>
      (\<exists>err. construct compile expr ?rc ?op = Returns (Inl err)) = regex_rejected compile expr"
    using construct_error [of ?op compile expr ?rc] table_operator_real regex
    by (simp add: regex_rejected_def)
  have iff: "(\<exists>err. ParseExpression vk compile expr = Returns (Inl err)) =
      malformed vk compile expr"
  proof (cases "structure_before_key_check expr")
    case True
    then show ?thesis unfolding ParseExpression_char malformed_def by simp
  next
    case nb: False
    show ?thesis
    proof (cases "vk (key_text expr)")
      case (Some kerr)
      with nb show ?thesis unfolding ParseExpression_char malformed_def by simp
    next
      case None
      show ?thesis
      proof (cases "structure_after_key_check expr")
        case True
        with nb None show ?thesis unfolding ParseExpression_char malformed_def by simp
      next
        case False
        with nb None cerr [OF False] show ?thesis
          unfolding ParseExpression_char malformed_def by simp
      qed
    qed
  qed
  have invalid: "structure_before_key_check expr \<or>
      (vk (key_text expr) = None \<and> structure_after_key_check expr) \<longrightarrow>
      ParseExpression vk compile expr = Returns (Inl (Errorf (invalidExpressionError expr)))"
    unfolding ParseExpression_char by auto
  have keyerr: "\<not> structure_before_key_check expr \<and> vk (key_text expr) = Some kerr \<longrightarrow>
      ParseExpression vk compile expr =
        Returns (Inl (Errorf (keyValidationError (key_text expr) expr kerr)))"
    unfolding ParseExpression_char by auto
  have rerr: "\<not> structure_before_key_check expr \<and> vk (key_text expr) = None \<and>
      \<not> structure_after_key_check expr \<and> regex_flag expr \<and> value_text expr \<noteq> [] \<and>
      compile (anchored (value_text expr)) = Inl rerr \<longrightarrow>
      ParseExpression vk compile expr = Returns (Inl (RegexpError rerr))"
  proof (intro impI, elim conjE)
    assume a: "\<not> structure_before_key_check expr" "vk (key_text expr) = None"
      "\<not> structure_after_key_check expr" "regex_flag expr" "value_text expr \<noteq> []"
      "compile (anchored (value_text expr)) = Inl rerr"
    from regex [OF a(3)] a(4,5) have "?op = MATCH \<or> ?op = NOT_MATCH \<or> ?op = MATCH_TAG"
      by simp
    from construct_regex [OF this, of compile expr ?rc] a(6)
    have "construct compile expr ?rc ?op = Returns (Inl (RegexpError rerr))" by simp
    with a(1,2,3) show "ParseExpression vk compile expr = Returns (Inl (RegexpError rerr))"
      unfolding ParseExpression_char by simp
  qed
  from panics iff invalid keyerr rerr show ?thesis by blast
qed

text \<open>
  The theorem at four texts: \<^verbatim>\<open>=value\<close> (empty key), \<^verbatim>\<open>a b=c\<close> (a key the validation
  rejects), \<^verbatim>\<open>k=~(\<close> (a pattern that does not compile) and \<^verbatim>\<open>host=web01\<close> (well formed).
\<close>

theorem ParseExpression_errors_witness:
  "ParseExpression sample_validateKey sample_Compile ''=value'' =
     Returns (Inl (Errorf ''Invalid expression: =value'')) \<and>
   malformed sample_validateKey sample_Compile ''=value'' \<and>
   ParseExpression sample_validateKey sample_Compile ''a b=c'' =
     Returns (Inl (Errorf (keyValidationError ''a b'' ''a b=c'' ''space in key''))) \<and>
   malformed sample_validateKey sample_Compile ''a b=c'' \<and>
   ParseExpression sample_validateKey sample_Compile ''k=~('' =
     Returns (Inl (RegexpError ''error parsing regexp: missing closing )'')) \<and>
   malformed sample_validateKey sample_Compile ''k=~('' \<and>
   \<not> malformed sample_validateKey sample_Compile ''host=web01''"
proof -
  have 1: "structure_before_key_check ''=value''"
    by (simp add: structure_before_key_check_def text_eval)
  have 2: "\<not> structure_before_key_check ''a b=c'' \<and>
      sample_validateKey (key_text ''a b=c'') = Some ''space in key'' \<and> key_text ''a b=c'' = ''a b''"
    by (simp add: structure_before_key_check_def text_eval sample_validateKey_def)
  have 3: "\<not> structure_before_key_check ''k=~('' \<and> sample_validateKey (key_text ''k=~('') = None \<and>
      \<not> structure_after_key_check ''k=~('' \<and> regex_flag ''k=~('' \<and> value_text ''k=~('' \<noteq> [] \<and>
      sample_Compile (anchored (value_text ''k=~('')) = Inl ''error parsing regexp: missing closing )''"
    by (simp add: structure_before_key_check_def structure_after_key_check_def text_eval
        sample_validateKey_def sample_Compile_def anchored_def)
  note a = ParseExpression_errors [of sample_validateKey sample_Compile "''=value''"]
  note b = ParseExpression_errors [of sample_validateKey sample_Compile "''a b=c''" "''space in key''"]
  note c = ParseExpression_errors [of sample_validateKey sample_Compile "''k=~(''" _
        "''error parsing regexp: missing closing )''"]
  note d = ParseExpression_errors [of sample_validateKey sample_Compile "''host=web01''"]
  from 1 a have "ParseExpression sample_validateKey sample_Compile ''=value'' =
     Returns (Inl (Errorf (invalidExpressionError ''=value'')))"
    by metis
  then have a1: "ParseExpression sample_validateKey sample_Compile ''=value'' =
     Returns (Inl (Errorf ''Invalid expression: =value''))"
    by (simp add: invalidExpressionError_def)
  with a have a2: "malformed sample_validateKey sample_Compile ''=value''" by metis
  from 2 b have b1: "ParseExpression sample_validateKey sample_Compile ''a b=c'' =
     Returns (Inl (Errorf (keyValidationError ''a b'' ''a b=c'' ''space in key'')))"
    by metis
  with b have b2: "malformed sample_validateKey sample_Compile ''a b=c''" by metis
  from 3 c have c1: "ParseExpression sample_validateKey sample_Compile ''k=~('' =
     Returns (Inl (RegexpError ''error parsing regexp: missing closing )''))"
    by metis
  with c have c2: "malformed sample_validateKey sample_Compile ''k=~(''" by metis
  from d eval_equal have d1: "\<not> malformed sample_validateKey sample_Compile ''host=web01''"
    by (metis outcome.inject sum.distinct(1))
  from a1 a2 b1 b2 c1 c2 d1 show ?thesis by simp
qed

text \<open>
  Claim C7 at the text \<^verbatim>\<open>tag!=~.*\<close>: "\<^verbatim>\<open>GetDefaultDecision()\<close> returns Fail if the compiled
  pattern matches the empty string". The pattern \<^verbatim>\<open>^(?:.*)\<close> of the parsed expression
  matches the empty string, and \<^verbatim>\<open>GetDefaultDecision\<close> returns Pass: it reads the field
  \<^verbatim>\<open>matchesEmpty\<close>, which \<^verbatim>\<open>ParseExpression\<close> leaves at its zero value.
\<close>

theorem default_decision_of_parsed_pattern_matching_empty:
  "ParseExpression sample_validateKey sample_Compile ''tag!=~.*'' =
     Returns (Inr (ExpressionNotMatch
       \<lparr>key = ''tag'', value = ''^(?:.*)'', matchesEmpty = False, valueRe = (\<lambda>s. True)\<rparr>)) \<and>
   MatchString
     (valueRe \<lparr>key = ''tag'', value = ''^(?:.*)'', matchesEmpty = False, valueRe = (\<lambda>s. True)\<rparr>)
     '''' \<and>
   expressionNotMatch_GetDefaultDecision
     \<lparr>key = ''tag'', value = ''^(?:.*)'', matchesEmpty = False, valueRe = (\<lambda>s. True)\<rparr> = Pass"
  by (simp add: parse_eval MatchString_def expressionNotMatch_GetDefaultDecision_def)

section \<open>Claims about the collection of expressions\<close>




end
